theory Spec2Isabelle
  imports Complex_Main
begin

section \<open>Long-distance call cost calculator: the data record\<close>

text \<open>
  The enumeration \<open>weekday\<close> of \<^verbatim>\<open>main.cpp\<close>, with its first enumerator \<open>None = 0\<close>
  (written \<open>None_day\<close> here, \<open>None\<close> being the constructor of \<open>option\<close>).
\<close>

datatype weekday =
  None_day | Monday | Tuesday | Wednesday | Thursday | Friday | Saturday | Sunday

text \<open>\<open>static_cast<int>\<close> on a \<open>weekday\<close>: the enumerators count from 0.\<close>

fun weekday_to_int :: "weekday \<Rightarrow> int" where
  "weekday_to_int None_day = 0"
| "weekday_to_int Monday = 1"
| "weekday_to_int Tuesday = 2"
| "weekday_to_int Wednesday = 3"
| "weekday_to_int Thursday = 4"
| "weekday_to_int Friday = 5"
| "weekday_to_int Saturday = 6"
| "weekday_to_int Sunday = 7"

text \<open>
  The private members of class \<open>long_distance_call_data\<close>. The source spells them with
  a trailing underscore (\<open>weekday_\<close>, \<open>hour_\<close>, \<open>minutes_\<close>, \<open>length_of_call_\<close>), which is
  not a name here, so each carries the suffix \<open>m\<close>. The record selectors are the getters,
  record update is the setter. An \<open>int\<close> of the source is a HOL \<open>int\<close>: the program
  compares and prints these values and never adds to them, and every place that produces
  one (\<open>read_int\<close>, \<open>stoi\<close> below) checks the 32-bit range itself.
\<close>

record long_distance_call_data =
  weekday_m :: weekday
  hour_m :: int
  minutes_m :: int
  length_of_call_m :: int

text \<open>
  A default-constructed record: the default member initialisers
  \<open>weekday_{weekday::Monday}\<close>, \<open>hour_{24}\<close>, \<open>minutes_{00}\<close>, \<open>length_of_call_{}\<close>.
\<close>

definition new_data :: long_distance_call_data where
  "new_data = \<lparr>weekday_m = Monday, hour_m = 24, minutes_m = 0, length_of_call_m = 0\<rparr>"

definition weekday_strings :: "string list" where
  "weekday_strings =
     [''None'', ''Monday'', ''Tuesday'', ''Wednesday'', ''Thursday'', ''Friday'',
      ''Saturday'', ''Sunday'']"

text \<open>
  \<open>get_text_for_enum\<close> indexes the array of eight names without a check; an index
  outside it is a read out of bounds, \<open>None\<close> here.
\<close>

definition get_text_for_enum :: "int \<Rightarrow> string option" where
  "get_text_for_enum enum_val =
     (if 0 \<le> enum_val \<and> enum_val < 8 then Some (weekday_strings ! nat enum_val) else None)"

subsection \<open>Characters and \<open>std::to_string\<close>\<close>

definition INT_MAX :: int where "INT_MAX = 2147483647"
definition INT_MIN :: int where "INT_MIN = - 2147483648"

text \<open>The classification functions of \<open>cctype\<close> in the C locale, on character codes.\<close>

definition isdigit :: "char \<Rightarrow> bool" where
  "isdigit c = (48 \<le> (of_char c :: nat) \<and> (of_char c :: nat) \<le> 57)"

definition isupper :: "char \<Rightarrow> bool" where
  "isupper c = (65 \<le> (of_char c :: nat) \<and> (of_char c :: nat) \<le> 90)"

definition islower :: "char \<Rightarrow> bool" where
  "islower c = (97 \<le> (of_char c :: nat) \<and> (of_char c :: nat) \<le> 122)"

definition isalpha :: "char \<Rightarrow> bool" where
  "isalpha c = (isupper c \<or> islower c)"

definition isspace :: "char \<Rightarrow> bool" where
  "isspace c = ((of_char c :: nat) = 32 \<or> (9 \<le> (of_char c :: nat) \<and> (of_char c :: nat) \<le> 13))"

definition tolower :: "char \<Rightarrow> char" where
  "tolower c = (if isupper c then char_of ((of_char c :: nat) + 32) else c)"

definition digit_char :: "nat \<Rightarrow> char" where
  "digit_char k = char_of (48 + k)"

definition digit_val :: "char \<Rightarrow> int" where
  "digit_val c = int (of_char c) - 48"

text \<open>The decimal digits of a number that is not negative.\<close>

function digits_of :: "int \<Rightarrow> string" where
  "digits_of n =
     (if n < 10 then [digit_char (nat n)]
      else digits_of (n div 10) @ [digit_char (nat (n mod 10))])"
  by pat_completeness auto
termination
  by (relation "measure nat") auto

declare digits_of.simps [simp del]

text \<open>\<open>std::to_string(int)\<close>: the decimal digits, after a minus sign when negative.\<close>

definition to_string :: "int \<Rightarrow> string" where
  "to_string i = (if i < 0 then CHR ''-'' # digits_of (- i) else digits_of i)"

text \<open>The value of a string of decimal digits, most significant first.\<close>

definition digits_value :: "string \<Rightarrow> int" where
  "digits_value ds = foldl (\<lambda>acc c. 10 * acc + digit_val c) 0 ds"

text \<open>
  \<open>get_time_formatted\<close>: hour, a colon, the minutes; when the minutes are 0 the
  source appends \<open>to_string(minutes_)\<close> twice.
\<close>

definition get_time_formatted :: "long_distance_call_data \<Rightarrow> string" where
  "get_time_formatted d =
     (if minutes_m d = 0
      then to_string (hour_m d) @ [CHR '':''] @ to_string (minutes_m d) @ to_string (minutes_m d)
      else to_string (hour_m d) @ [CHR '':''] @ to_string (minutes_m d))"

subsection \<open>Single-precision arithmetic\<close>

text \<open>
  A finite \<open>float\<close> is represented by the rational number it denotes. \<open>float_round\<close> is
  the rounding of IEEE 754 binary32 in the default mode: 24 significant bits, exponent of
  the last bit not below \<open>-149\<close>, ties to the even significand. Overflow to infinity is
  left out: the values of this program are products of a 32-bit integer and a rate below 1.
\<close>

type_synonym float32 = rat

text \<open>The number of binary digits of a positive integer.\<close>

function bit_length :: "int \<Rightarrow> int" where
  "bit_length n = (if n \<le> 0 then 0 else 1 + bit_length (n div 2))"
  by pat_completeness auto
termination
  by (relation "measure nat") auto

declare bit_length.simps [simp del]

definition pow2 :: "int \<Rightarrow> rat" where
  "pow2 k = (if 0 \<le> k then 2 ^ nat k else 1 / 2 ^ nat (- k))"

text \<open>For \<open>a > 0\<close>: the integer \<open>e\<close> with \<open>2^e \<le> a < 2^(e+1)\<close>.\<close>

definition ilog2 :: "rat \<Rightarrow> int" where
  "ilog2 a =
     (let (p, q) = quotient_of a;
          k = bit_length p - bit_length q
      in if a < pow2 k then k - 1 else k)"

definition round_half_even :: "rat \<Rightarrow> int" where
  "round_half_even r =
     (let f = \<lfloor>r\<rfloor>; d = r - of_int f
      in if d < 1 / 2 then f
         else if 1 / 2 < d then f + 1
         else if even f then f else f + 1)"

definition float_round :: "rat \<Rightarrow> float32" where
  "float_round x =
     (if x = 0 then 0
      else let a = \<bar>x\<bar>;
               q = max (ilog2 a - 23) (- 149);
               m = round_half_even (a / pow2 q)
           in sgn x * of_int m * pow2 q)"

text \<open>\<open>static_cast<float>\<close> of an \<open>int\<close>, the product of two floats, a float literal.\<close>

definition float_of_int :: "int \<Rightarrow> float32" where
  "float_of_int n = float_round (of_int n)"

definition fmul :: "float32 \<Rightarrow> float32 \<Rightarrow> float32" where
  "fmul a b = float_round (a * b)"

definition weekend_rate :: float32 where "weekend_rate = float_round (15 / 100)"
definition weekday_edge_rate :: float32 where "weekday_edge_rate = float_round (25 / 100)"
definition weekday_normal_rate :: float32 where "weekday_normal_rate = float_round (4 / 10)"

text \<open>
  Output of a float under \<open>std::fixed\<close> and \<open>std::setprecision(2)\<close>: the exact value
  rounded to two decimals.
\<close>

definition format_fixed2 :: "float32 \<Rightarrow> string" where
  "format_fixed2 x =
     (let n = round_half_even (\<bar>x\<bar> * 100);
          frac = nat (n mod 100)
      in (if x < 0 then [CHR ''-''] else []) @ to_string (n div 100) @ [CHR ''.'']
         @ [digit_char (frac div 10), digit_char (frac mod 10)])"

section \<open>The rate calculator\<close>

definition calculate_cost_of_call :: "long_distance_call_data \<Rightarrow> float32" where
  "calculate_cost_of_call in_data =
     (if weekday_m in_data = Saturday \<or> weekday_m in_data = Sunday
      then fmul (float_of_int (length_of_call_m in_data)) weekend_rate
      else if hour_m in_data < 8 \<or> 18 < hour_m in_data
      then fmul (float_of_int (length_of_call_m in_data)) weekday_edge_rate
      else fmul (float_of_int (length_of_call_m in_data)) weekday_normal_rate)"

section \<open>Standard input and output\<close>

text \<open>
  The state of the two streams: the characters not yet read from \<open>std::cin\<close> and the
  characters written to \<open>std::cout\<close> so far.
\<close>

record io =
  cin :: string
  cout :: string

definition endl :: string where
  "endl = [CHR 0x0A]"

definition print :: "string \<Rightarrow> io \<Rightarrow> io" where
  "print s st = st\<lparr>cout := cout st @ s\<rparr>"

text \<open>
  What a successful extraction reads. Each extraction skips leading white space first;
  \<open>None\<close> is a failed extraction (end of input, or no number where one is expected).
\<close>

text \<open>\<open>std::cin >> c\<close> for a \<open>char\<close>.\<close>

definition read_char :: "io \<Rightarrow> (char \<times> io) option" where
  "read_char st =
     (case dropWhile isspace (cin st) of
        [] \<Rightarrow> None
      | c # rest \<Rightarrow> Some (c, st\<lparr>cin := rest\<rparr>))"

text \<open>
  \<open>std::cin >> n\<close> for an \<open>int\<close>: an optional sign and decimal digits; a value
  outside the range of \<open>int\<close> sets the fail bit as a missing number does.
\<close>

definition read_int :: "io \<Rightarrow> (int \<times> io) option" where
  "read_int st =
     (let s = dropWhile isspace (cin st);
          neg = (case s of [] \<Rightarrow> False | c # _ \<Rightarrow> c = CHR ''-'');
          s1 = (case s of [] \<Rightarrow> [] | c # t \<Rightarrow> if c = CHR ''-'' \<or> c = CHR ''+'' then t else s);
          ds = takeWhile isdigit s1;
          v = (if neg then - digits_value ds else digits_value ds)
      in if ds = [] \<or> v < INT_MIN \<or> INT_MAX < v then None
         else Some (v, st\<lparr>cin := dropWhile isdigit s1\<rparr>))"

text \<open>
  \<open>std::cin >> buf\<close> for \<open>char buf[256]\<close>: the characters up to the next white space,
  at most 255 of them (the extraction into an array stops where the array is full).
\<close>

definition read_token :: "io \<Rightarrow> (string \<times> io) option" where
  "read_token st =
     (let s = dropWhile isspace (cin st);
          tok = take 255 (takeWhile (\<lambda>c. \<not> isspace c) s)
      in if tok = [] then None else Some (tok, st\<lparr>cin := drop (length tok) s\<rparr>))"

text \<open>\<open>std::cin.ignore(max, '\n')\<close>: drops the rest of the line and its newline.\<close>

definition ignore_line :: "io \<Rightarrow> io" where
  "ignore_line st = st\<lparr>cin := drop 1 (dropWhile (\<lambda>c. c \<noteq> CHR 0x0A) (cin st))\<rparr>"

text \<open>
  The extraction operators as the program uses them. The program never tests the state
  of the stream and never clears it. A failed extraction sets the fail bit, and from then
  on no extraction and no \<open>ignore\<close> reads anything: the model drops what is left of the
  input. What the variable holds after the extraction is \<open>Some\<close> value, or \<open>None\<close> when
  the extraction wrote nothing (there was nothing but white space left to read): the
  variables the reading loops extract into are declared in the body of the loop without
  an initialiser, so such a variable holds no value at all.
\<close>

definition exhausted :: "io \<Rightarrow> io" where
  "exhausted st = st\<lparr>cin := []\<rparr>"

definition extract_char :: "io \<Rightarrow> char option \<times> io" where
  "extract_char st =
     (case read_char st of
        Some (c, st1) \<Rightarrow> (Some c, st1)
      | None \<Rightarrow> (None, exhausted st))"

text \<open>
  What a failed extraction of an \<open>int\<close> stores: nothing when the input has ended, 0
  when no digit follows, the nearest end of the range when the digits are too many.
\<close>

definition int_after_failure :: "io \<Rightarrow> int option" where
  "int_after_failure st =
     (let s = dropWhile isspace (cin st);
          neg = (case s of [] \<Rightarrow> False | c # _ \<Rightarrow> c = CHR ''-'');
          s1 = (case s of [] \<Rightarrow> [] | c # t \<Rightarrow> if c = CHR ''-'' \<or> c = CHR ''+'' then t else s);
          ds = takeWhile isdigit s1
      in if s = [] then None
         else if ds = [] then Some 0
         else if neg then Some INT_MIN else Some INT_MAX)"

definition extract_int :: "io \<Rightarrow> int option \<times> io" where
  "extract_int st =
     (case read_int st of
        Some (n, st1) \<Rightarrow> (Some n, st1)
      | None \<Rightarrow> (int_after_failure st, exhausted st))"

definition extract_token :: "io \<Rightarrow> string option \<times> io" where
  "extract_token st =
     (case read_token st of
        Some (tok, st1) \<Rightarrow> (Some tok, st1)
      | None \<Rightarrow> (None, exhausted st))"

text \<open>
  \<open>std::stoi\<close> on a C string, base 10: white space, an optional sign, decimal digits;
  what follows the digits is not looked at. It throws \<open>std::invalid_argument\<close> when there
  is no digit and \<open>std::out_of_range\<close> when the value is not an \<open>int\<close>.
\<close>

datatype exception = Invalid_argument | Out_of_range

definition stoi :: "string \<Rightarrow> exception + int" where
  "stoi str =
     (let s = dropWhile isspace str;
          neg = (case s of [] \<Rightarrow> False | c # _ \<Rightarrow> c = CHR ''-'');
          s1 = (case s of [] \<Rightarrow> [] | c # t \<Rightarrow> if c = CHR ''-'' \<or> c = CHR ''+'' then t else s);
          ds = takeWhile isdigit s1;
          v = (if neg then - digits_value ds else digits_value ds)
      in if ds = [] then Inl Invalid_argument
         else if v < INT_MIN \<or> INT_MAX < v then Inl Out_of_range
         else Inr v)"

section \<open>The input collector\<close>

text \<open>
  What a reading function leaves behind: it returned with the record it filled in; or
  its loop tested a variable that the extraction of that pass had not written, which the
  language leaves undefined (the model follows the loop no further: no value read from the
  input ever reaches the variable, since the stream has failed for good); or an exception
  left the function.
\<close>

datatype 'a result = Returned 'a io | Input_failed io | Threw exception io

text \<open>One pass of a reading loop: the loop is left with a result, or it runs again.\<close>

datatype 'a pass = Leave "'a result" | Again 'a io

lemma cin_print [simp]: "cin (print s st) = cin st"
  by (simp add: print_def)

lemma length_dropWhile_le: "length (dropWhile P xs) \<le> length xs"
  by (induction xs) auto

lemma read_char_shorter:
  "read_char st = Some (c, st') \<Longrightarrow> length (cin st') < length (cin st)"
proof -
  assume a: "read_char st = Some (c, st')"
  then obtain rest where r: "dropWhile isspace (cin st) = c # rest" and s: "cin st' = rest"
    by (auto simp: read_char_def split: list.splits)
  have "length (dropWhile isspace (cin st)) \<le> length (cin st)"
    by (rule length_dropWhile_le)
  with r s show ?thesis by simp
qed

lemma ignore_line_le: "length (cin (ignore_line st)) \<le> length (cin st)"
proof -
  have "length (dropWhile (\<lambda>c. c \<noteq> CHR 0x0A) (cin st)) \<le> length (cin st)"
    by (rule length_dropWhile_le)
  then show ?thesis by (simp add: ignore_line_def)
qed

lemma read_int_shorter:
  "read_int st = Some (v, st') \<Longrightarrow> length (cin st') < length (cin st)"
proof -
  assume a: "read_int st = Some (v, st')"
  define s where "s = dropWhile isspace (cin st)"
  define s1 where "s1 = (case s of [] \<Rightarrow> [] | c # t \<Rightarrow> if c = CHR ''-'' \<or> c = CHR ''+'' then t else s)"
  from a have "takeWhile isdigit s1 \<noteq> [] \<and> cin st' = dropWhile isdigit s1"
    unfolding read_int_def Let_def s1_def s_def by (simp split: if_splits) auto
  then have ne: "takeWhile isdigit s1 \<noteq> []" and c: "cin st' = dropWhile isdigit s1"
    by simp_all
  have "length (takeWhile isdigit s1) + length (dropWhile isdigit s1) = length s1"
    by (metis length_append takeWhile_dropWhile_id)
  with ne have "length (dropWhile isdigit s1) < length s1"
    by (cases "takeWhile isdigit s1") auto
  moreover have "length s1 \<le> length s"
    by (auto simp: s1_def split: list.splits)
  moreover have "length s \<le> length (cin st)"
    unfolding s_def by (rule length_dropWhile_le)
  ultimately show ?thesis using c by simp
qed

lemma read_token_shorter:
  "read_token st = Some (tok, st') \<Longrightarrow> length (cin st') < length (cin st)"
proof -
  assume a: "read_token st = Some (tok, st')"
  define s where "s = dropWhile isspace (cin st)"
  from a have ne: "tok \<noteq> []" and t: "tok = take 255 (takeWhile (\<lambda>c. \<not> isspace c) s)"
    and c: "cin st' = drop (length tok) s"
    by (auto simp: read_token_def Let_def s_def split: if_splits)
  from ne t have "s \<noteq> []" by auto
  with ne have "length (drop (length tok) s) < length s"
    by (cases tok) auto
  moreover have "length s \<le> length (cin st)"
    unfolding s_def by (rule length_dropWhile_le)
  ultimately show ?thesis using c by simp
qed

text \<open>An extraction reads forward, and one that writes its variable shortens the input.\<close>

lemma extract_char_le: "extract_char st = (r, st') \<Longrightarrow> length (cin st') \<le> length (cin st)"
  by (auto simp: extract_char_def exhausted_def split: option.splits
      dest: read_char_shorter less_imp_le)

lemma extract_char_Some:
  "extract_char st = (Some c, st') \<longleftrightarrow> read_char st = Some (c, st')"
  by (auto simp: extract_char_def split: option.splits)

lemma extract_char_shorter:
  "extract_char st = (Some c, st') \<Longrightarrow> length (cin st') < length (cin st)"
  by (simp add: extract_char_Some read_char_shorter)

lemma extract_int_le: "extract_int st = (r, st') \<Longrightarrow> length (cin st') \<le> length (cin st)"
  by (auto simp: extract_int_def exhausted_def split: option.splits
      dest: read_int_shorter less_imp_le)

lemma int_after_failure_Some: "int_after_failure st = Some n \<Longrightarrow> cin st \<noteq> []"
  by (auto simp: int_after_failure_def Let_def split: if_splits)

lemma extract_int_shorter:
  "extract_int st = (Some n, st') \<Longrightarrow> length (cin st') < length (cin st)"
  by (auto simp: extract_int_def exhausted_def split: option.splits
      dest: read_int_shorter int_after_failure_Some)

lemma extract_token_Some:
  "extract_token st = (Some tok, st') \<longleftrightarrow> read_token st = Some (tok, st')"
  by (auto simp: extract_token_def split: option.splits)

lemma extract_token_le: "extract_token st = (r, st') \<Longrightarrow> length (cin st') \<le> length (cin st)"
  by (auto simp: extract_token_def exhausted_def split: option.splits
      dest: read_token_shorter less_imp_le)

subsection \<open>The day of the week\<close>

text \<open>
  The body of the loop of \<open>get_day_of_week\<close> after the two letters are read: the text it
  prints, the record, and the flag \<open>valid_weekday\<close>.
\<close>

definition get_day_of_week_body ::
  "long_distance_call_data \<Rightarrow> char \<Rightarrow> char \<Rightarrow> string \<times> long_distance_call_data \<times> bool" where
  "get_day_of_week_body in_data first_letter second_letter =
     (if \<not> isalpha first_letter \<or> \<not> isalpha second_letter then ([], in_data, False)
      else if tolower first_letter = CHR ''m'' then ([], in_data\<lparr>weekday_m := Monday\<rparr>, True)
      else if tolower first_letter = CHR ''t'' then
        (if tolower second_letter = CHR ''u'' then ([], in_data\<lparr>weekday_m := Tuesday\<rparr>, True)
         else if tolower second_letter = CHR ''h'' then ([], in_data\<lparr>weekday_m := Thursday\<rparr>, True)
         else ([], in_data, False))
      else if tolower first_letter = CHR ''w'' then ([], in_data\<lparr>weekday_m := Wednesday\<rparr>, True)
      else if tolower first_letter = CHR ''f'' then ([], in_data\<lparr>weekday_m := Friday\<rparr>, True)
      else if tolower first_letter = CHR ''s'' then
        (if tolower second_letter = CHR ''a'' then ([], in_data\<lparr>weekday_m := Saturday\<rparr>, True)
         else if tolower second_letter = CHR ''u'' then ([], in_data\<lparr>weekday_m := Sunday\<rparr>, True)
         else ([], in_data, False))
      else (''You entered an invalid weekday.'' @ endl, in_data, False))"

text \<open>
  The same body on what the two extractions left in the variables. The test
  \<open>!isalpha(first_letter) || !isalpha(second_letter)\<close> reads the second letter only when
  the first is alphabetic; \<open>None\<close> when it reads a variable that holds no value.
\<close>

definition get_day_of_week_checks ::
  "long_distance_call_data \<Rightarrow> char option \<Rightarrow> char option
     \<Rightarrow> (string \<times> long_distance_call_data \<times> bool) option" where
  "get_day_of_week_checks in_data first_letter second_letter =
     (case first_letter of
        None \<Rightarrow> None
      | Some a \<Rightarrow>
          if \<not> isalpha a then Some ([], in_data, False)
          else (case second_letter of
                  None \<Rightarrow> None
                | Some b \<Rightarrow> Some (get_day_of_week_body in_data a b)))"

definition day_prompt :: string where
  "day_prompt =
     endl @ ''Please enter the day of the week you made your call (e.g. Mo, Tu, etc.): ''"

text \<open>One pass of the loop: the prompt, the two extractions, \<open>ignore\<close>, the body.\<close>

definition get_day_of_week_pass ::
  "long_distance_call_data \<Rightarrow> io \<Rightarrow> long_distance_call_data pass" where
  "get_day_of_week_pass in_data st =
     (case extract_char (print day_prompt st) of
        (first_letter, st1) \<Rightarrow>
          (case extract_char st1 of
             (second_letter, st2) \<Rightarrow>
               (case get_day_of_week_checks in_data first_letter second_letter of
                  None \<Rightarrow> Leave (Input_failed (ignore_line st2))
                | Some (msg, d, valid_weekday) \<Rightarrow>
                    if valid_weekday then Leave (Returned d (print msg (ignore_line st2)))
                    else Again d (print msg (ignore_line st2)))))"

lemma get_day_of_week_pass_shorter:
  assumes "get_day_of_week_pass d st = Again d' st' \<or> get_day_of_week_pass d st = Leave (Returned d' st')"
  shows "length (cin st') < length (cin st)"
proof -
  obtain f st1 where e1: "extract_char (print day_prompt st) = (f, st1)"
    by (cases "extract_char (print day_prompt st)")
  obtain s st2 where e2: "extract_char st1 = (s, st2)"
    by (cases "extract_char st1")
  from assms e1 e2 obtain a msg where f: "f = Some a" and st': "st' = print msg (ignore_line st2)"
    by (auto simp: get_day_of_week_pass_def get_day_of_week_checks_def
        split: option.splits if_splits prod.splits)
  from e1 f have "length (cin st1) < length (cin st)"
    using extract_char_shorter [of "print day_prompt st" a st1] by simp
  moreover from e2 have "length (cin st2) \<le> length (cin st1)" by (rule extract_char_le)
  moreover have "length (cin (ignore_line st2)) \<le> length (cin st2)" by (rule ignore_line_le)
  ultimately show ?thesis by (simp add: st')
qed

function get_day_of_week ::
  "long_distance_call_data \<Rightarrow> io \<Rightarrow> long_distance_call_data result" where
  "get_day_of_week in_data st =
     (case get_day_of_week_pass in_data st of
        Leave r \<Rightarrow> r
      | Again d st1 \<Rightarrow> get_day_of_week d st1)"
  by pat_completeness auto
termination
  by (relation "measure (\<lambda>(d, st). length (cin st))")
    (auto intro: get_day_of_week_pass_shorter)

declare get_day_of_week.simps [simp del]

subsection \<open>The start time\<close>

text \<open>
  The body of the loop of \<open>get_start_time\<close> after hour, separator and minutes are read:
  the text it prints, the record, and the flag \<open>valid_time\<close>.
\<close>

definition get_start_time_body ::
  "long_distance_call_data \<Rightarrow> int \<Rightarrow> int \<Rightarrow> string \<times> long_distance_call_data \<times> bool" where
  "get_start_time_body in_data hour minutes =
     (if hour < 0 \<or> 24 < hour then (''You entered an invalid hour.'' @ endl, in_data, False)
      else if minutes < 0 \<or> 59 < minutes \<or> (0 < minutes \<and> hour = 24)
      then (''You entered an invalid minutes.'' @ endl, in_data, False)
      else ([], in_data\<lparr>hour_m := hour, minutes_m := minutes\<rparr>, True))"

text \<open>
  The same body on what the extractions left in the variables: the hour is tested
  first, and the minutes are read only when the hour is in range; \<open>None\<close> when the test
  reads a variable that holds no value.
\<close>

definition get_start_time_checks ::
  "long_distance_call_data \<Rightarrow> int option \<Rightarrow> int option
     \<Rightarrow> (string \<times> long_distance_call_data \<times> bool) option" where
  "get_start_time_checks in_data hour minutes =
     (case hour of
        None \<Rightarrow> None
      | Some h \<Rightarrow>
          if h < 0 \<or> 24 < h then Some (''You entered an invalid hour.'' @ endl, in_data, False)
          else (case minutes of
                  None \<Rightarrow> None
                | Some m \<Rightarrow> Some (get_start_time_body in_data h m)))"

definition time_prompt :: string where
  "time_prompt = ''Please enter the time you began your call (e.g. 16:32): ''"

text \<open>One pass of the loop: the prompt, the three extractions, \<open>ignore\<close>, the body.\<close>

definition get_start_time_pass ::
  "long_distance_call_data \<Rightarrow> io \<Rightarrow> long_distance_call_data pass" where
  "get_start_time_pass in_data st =
     (case extract_int (print time_prompt st) of
        (hour, st1) \<Rightarrow>
          (case extract_char st1 of
             (c, st2) \<Rightarrow>
               (case extract_int st2 of
                  (minutes, st3) \<Rightarrow>
                    (case get_start_time_checks in_data hour minutes of
                       None \<Rightarrow> Leave (Input_failed (ignore_line st3))
                     | Some (msg, d, valid_time) \<Rightarrow>
                         if valid_time then Leave (Returned d (print msg (ignore_line st3)))
                         else Again d (print msg (ignore_line st3))))))"

lemma get_start_time_pass_shorter:
  assumes "get_start_time_pass d st = Again d' st' \<or> get_start_time_pass d st = Leave (Returned d' st')"
  shows "length (cin st') < length (cin st)"
proof -
  obtain h st1 where e1: "extract_int (print time_prompt st) = (h, st1)"
    by (cases "extract_int (print time_prompt st)")
  obtain c st2 where e2: "extract_char st1 = (c, st2)"
    by (cases "extract_char st1")
  obtain m st3 where e3: "extract_int st2 = (m, st3)"
    by (cases "extract_int st2")
  from assms e1 e2 e3 obtain n msg where h: "h = Some n" and st': "st' = print msg (ignore_line st3)"
    by (auto simp: get_start_time_pass_def get_start_time_checks_def
        split: option.splits if_splits prod.splits)
  from e1 h have "length (cin st1) < length (cin st)"
    using extract_int_shorter [of "print time_prompt st" n st1] by simp
  moreover from e2 have "length (cin st2) \<le> length (cin st1)" by (rule extract_char_le)
  moreover from e3 have "length (cin st3) \<le> length (cin st2)" by (rule extract_int_le)
  moreover have "length (cin (ignore_line st3)) \<le> length (cin st3)" by (rule ignore_line_le)
  ultimately show ?thesis by (simp add: st')
qed

function get_start_time ::
  "long_distance_call_data \<Rightarrow> io \<Rightarrow> long_distance_call_data result" where
  "get_start_time in_data st =
     (case get_start_time_pass in_data st of
        Leave r \<Rightarrow> r
      | Again d st1 \<Rightarrow> get_start_time d st1)"
  by pat_completeness auto
termination
  by (relation "measure (\<lambda>(d, st). length (cin st))")
    (auto intro: get_start_time_pass_shorter)

declare get_start_time.simps [simp del]

subsection \<open>The length of the call\<close>

text \<open>
  \<open>length_of_call[0]\<close>: the first character of the buffer, the terminating zero when
  the buffer holds the empty string.
\<close>

definition first_char :: "string \<Rightarrow> char" where
  "first_char s = (case s of [] \<Rightarrow> CHR 0x00 | c # _ \<Rightarrow> c)"

text \<open>
  The body of the loop of \<open>get_length_of_call\<close> after the buffer is filled: the
  exception of \<open>std::stoi\<close>, or the text it prints, the record, and the flag \<open>is_valid\<close>.
\<close>

definition get_length_of_call_body ::
  "long_distance_call_data \<Rightarrow> string
     \<Rightarrow> exception + string \<times> long_distance_call_data \<times> bool" where
  "get_length_of_call_body in_data length_of_call =
     (if \<not> isdigit (first_char length_of_call)
      then Inr (''You did not enter a valid number.'' @ endl, in_data, False)
      else case stoi length_of_call of
             Inl e \<Rightarrow> Inl e
           | Inr n \<Rightarrow> Inr ([], in_data\<lparr>length_of_call_m := n\<rparr>, True))"

definition length_prompt :: string where
  "length_prompt = ''Please enter the length of your call in minutes: ''"

text \<open>
  One pass of the loop: the prompt, the extraction into the buffer, \<open>ignore\<close>, the body.
  A buffer the extraction did not write holds no string to test.
\<close>

definition get_length_of_call_pass ::
  "long_distance_call_data \<Rightarrow> io \<Rightarrow> long_distance_call_data pass" where
  "get_length_of_call_pass in_data st =
     (case extract_token (print length_prompt st) of
        (None, st1) \<Rightarrow> Leave (Input_failed (ignore_line st1))
      | (Some length_of_call, st1) \<Rightarrow>
          (case get_length_of_call_body in_data length_of_call of
             Inl e \<Rightarrow> Leave (Threw e (ignore_line st1))
           | Inr (msg, d, is_valid) \<Rightarrow>
               if is_valid then Leave (Returned d (print msg (ignore_line st1)))
               else Again d (print msg (ignore_line st1))))"

lemma get_length_of_call_pass_shorter:
  assumes "get_length_of_call_pass d st = Again d' st'
    \<or> get_length_of_call_pass d st = Leave (Returned d' st')"
  shows "length (cin st') < length (cin st)"
proof -
  obtain t st1 where e1: "extract_token (print length_prompt st) = (t, st1)"
    by (cases "extract_token (print length_prompt st)")
  from assms e1 obtain tok msg where t: "t = Some tok" and st': "st' = print msg (ignore_line st1)"
    by (auto simp: get_length_of_call_pass_def split: option.splits if_splits prod.splits sum.splits)
  from e1 t have "length (cin st1) < length (cin st)"
    using read_token_shorter [of "print length_prompt st" tok st1]
    by (simp add: extract_token_Some)
  moreover have "length (cin (ignore_line st1)) \<le> length (cin st1)" by (rule ignore_line_le)
  ultimately show ?thesis by (simp add: st')
qed

function get_length_of_call ::
  "long_distance_call_data \<Rightarrow> io \<Rightarrow> long_distance_call_data result" where
  "get_length_of_call in_data st =
     (case get_length_of_call_pass in_data st of
        Leave r \<Rightarrow> r
      | Again d st1 \<Rightarrow> get_length_of_call d st1)"
  by pat_completeness auto
termination
  by (relation "measure (\<lambda>(d, st). length (cin st))")
    (auto intro: get_length_of_call_pass_shorter)

declare get_length_of_call.simps [simp del]

section \<open>The session loop\<close>

text \<open>
  How the process ends: \<open>main\<close> returned a status; or an exception nobody catches reached
  \<open>std::terminate\<close>; or a reading loop tested a variable that holds no value, the input
  having failed (the model follows the process no further); or the array of day names was
  read out of bounds.
\<close>

datatype outcome =
  Exited int io | Terminated exception io | Stalled io | Out_of_bounds io

text \<open>
  The answer to the continue prompt. \<open>quit_input\<close> is initialised to the zero
  character and keeps it when the extraction fails.
\<close>

definition read_quit_input :: "io \<Rightarrow> char \<times> io" where
  "read_quit_input st =
     (case read_char st of
        None \<Rightarrow> (CHR 0x00, st\<lparr>cin := []\<rparr>)
      | Some (c, st1) \<Rightarrow> (c, ignore_line st1))"

definition hello :: string where
  "hello = ''Hello. Let's calculate the cost of your long-distance call.'' @ endl"

definition quit_prompt :: string where
  "quit_prompt = ''Would you like to calculate another call? (y or n): ''"

text \<open>A reading function that returns has read from the input.\<close>

lemma get_day_of_week_shorter:
  "get_day_of_week d st = Returned d' st' \<Longrightarrow> length (cin st') < length (cin st)"
proof (induction d st rule: get_day_of_week.induct)
  case (1 in_data st)
  show ?case
  proof (cases "get_day_of_week_pass in_data st")
    case (Leave r)
    with "1.prems" have "r = Returned d' st'"
      by (subst (asm) get_day_of_week.simps) simp
    with Leave show ?thesis using get_day_of_week_pass_shorter by blast
  next
    case (Again d2 st2)
    with "1.prems" have "get_day_of_week d2 st2 = Returned d' st'"
      by (subst (asm) get_day_of_week.simps) simp
    from "1.IH" [OF Again this] have "length (cin st') < length (cin st2)" .
    moreover from Again have "length (cin st2) < length (cin st)"
      using get_day_of_week_pass_shorter by blast
    ultimately show ?thesis by simp
  qed
qed

lemma get_start_time_shorter:
  "get_start_time d st = Returned d' st' \<Longrightarrow> length (cin st') < length (cin st)"
proof (induction d st rule: get_start_time.induct)
  case (1 in_data st)
  show ?case
  proof (cases "get_start_time_pass in_data st")
    case (Leave r)
    with "1.prems" have "r = Returned d' st'"
      by (subst (asm) get_start_time.simps) simp
    with Leave show ?thesis using get_start_time_pass_shorter by blast
  next
    case (Again d2 st2)
    with "1.prems" have "get_start_time d2 st2 = Returned d' st'"
      by (subst (asm) get_start_time.simps) simp
    from "1.IH" [OF Again this] have "length (cin st') < length (cin st2)" .
    moreover from Again have "length (cin st2) < length (cin st)"
      using get_start_time_pass_shorter by blast
    ultimately show ?thesis by simp
  qed
qed

lemma get_length_of_call_shorter:
  "get_length_of_call d st = Returned d' st' \<Longrightarrow> length (cin st') < length (cin st)"
proof (induction d st rule: get_length_of_call.induct)
  case (1 in_data st)
  show ?case
  proof (cases "get_length_of_call_pass in_data st")
    case (Leave r)
    with "1.prems" have "r = Returned d' st'"
      by (subst (asm) get_length_of_call.simps) simp
    with Leave show ?thesis using get_length_of_call_pass_shorter by blast
  next
    case (Again d2 st2)
    with "1.prems" have "get_length_of_call d2 st2 = Returned d' st'"
      by (subst (asm) get_length_of_call.simps) simp
    from "1.IH" [OF Again this] have "length (cin st') < length (cin st2)" .
    moreover from Again have "length (cin st2) < length (cin st)"
      using get_length_of_call_pass_shorter by blast
    ultimately show ?thesis by simp
  qed
qed

lemma read_quit_input_le:
  "read_quit_input st = (c, st') \<Longrightarrow> length (cin st') \<le> length (cin st)"
proof -
  assume a: "read_quit_input st = (c, st')"
  show ?thesis
  proof (cases "read_char st")
    case None
    with a show ?thesis by (auto simp: read_quit_input_def)
  next
    case (Some p)
    then obtain x st1 where p: "read_char st = Some (x, st1)" by (cases p) auto
    with a have "st' = ignore_line st1" by (simp add: read_quit_input_def)
    moreover have "length (cin (ignore_line st1)) \<le> length (cin st1)" by (rule ignore_line_le)
    moreover have "length (cin st1) < length (cin st)" using p by (rule read_char_shorter)
    ultimately show ?thesis by simp
  qed
qed

lemma main_input_shorter:
  assumes "get_day_of_week d0 (print p0 st) = Returned d1 st1"
    and "get_start_time d1 (print p1 st1) = Returned d2 st2"
    and "get_length_of_call d2 (print p2 st2) = Returned d3 st3"
    and "(c, st4) = read_quit_input (print p3 (print p4 (print p5 st3)))"
  shows "length (cin st4) < length (cin st)"
proof -
  have "length (cin st1) < length (cin st)"
    using get_day_of_week_shorter [OF assms(1)] by simp
  moreover have "length (cin st2) < length (cin st1)"
    using get_start_time_shorter [OF assms(2)] by simp
  moreover have "length (cin st3) < length (cin st2)"
    using get_length_of_call_shorter [OF assms(3)] by simp
  moreover have "length (cin st4) \<le> length (cin st3)"
    using read_quit_input_le [OF assms(4) [symmetric]] by simp
  ultimately show ?thesis by simp
qed

text \<open>The lines \<open>main\<close> writes for a record.\<close>

definition weekday_echo :: "string \<Rightarrow> string" where
  "weekday_echo txt = ''You entered: '' @ txt @ endl @ endl"

definition time_echo :: "long_distance_call_data \<Rightarrow> string" where
  "time_echo input = ''You entered the time: '' @ get_time_formatted input @ endl @ endl"

definition length_echo :: "long_distance_call_data \<Rightarrow> string" where
  "length_echo input =
     ''You entered: '' @ to_string (length_of_call_m input) @ '' minutes.'' @ endl @ endl"

definition cost_line :: "long_distance_call_data \<Rightarrow> string" where
  "cost_line input =
     ''The cost of your call is $'' @ format_fixed2 (calculate_cost_of_call input)
       @ endl @ endl @ endl"

definition yes_message :: string where
  "yes_message = ''I'll take that as a yes'' @ endl @ endl"

text \<open>
  \<open>main\<close>: the loop runs until \<open>quit\<close> is set; the record \<open>input\<close> is created anew in
  each pass and handed from one reading function to the next.
\<close>

function main :: "io \<Rightarrow> outcome" where
  "main st =
     (case get_day_of_week new_data (print hello st) of
        Input_failed s \<Rightarrow> Stalled s
      | Threw e s \<Rightarrow> Terminated e s
      | Returned input1 st1 \<Rightarrow>
          (case get_text_for_enum (weekday_to_int (weekday_m input1)) of
             None \<Rightarrow> Out_of_bounds st1
           | Some txt \<Rightarrow>
               (case get_start_time input1 (print (weekday_echo txt) st1) of
                  Input_failed s \<Rightarrow> Stalled s
                | Threw e s \<Rightarrow> Terminated e s
                | Returned input2 st2 \<Rightarrow>
                    (case get_length_of_call input2 (print (time_echo input2) st2) of
                       Input_failed s \<Rightarrow> Stalled s
                     | Threw e s \<Rightarrow> Terminated e s
                     | Returned input3 st3 \<Rightarrow>
                         (case read_quit_input
                                 (print quit_prompt
                                   (print (cost_line input3)
                                     (print (length_echo input3) st3))) of
                            (quit_input, st4) \<Rightarrow>
                              if tolower quit_input = CHR ''n'' then Exited 0 (print endl st4)
                              else if tolower quit_input = CHR ''y'' then main st4
                              else main (print yes_message st4))))))"
  by pat_completeness auto
termination
  by (relation "measure (\<lambda>st. length (cin st))") (auto intro: main_input_shorter)

declare main.simps [simp del]

section \<open>Notions used to state the properties\<close>

text \<open>The stream state a reading function leaves behind, whichever way it ended.\<close>

definition result_io :: "'a result \<Rightarrow> io" where
  "result_io r = (case r of Returned x s \<Rightarrow> s | Input_failed s \<Rightarrow> s | Threw e s \<Rightarrow> s)"

text \<open>
  The table of two-letter day codes as the specification documents it: \<open>m\<close>, \<open>w\<close>
  and \<open>f\<close> decide on the first letter alone, \<open>t\<close> and \<open>s\<close> need the second one;
  either case of each letter.
\<close>

definition documented_weekday :: "char \<Rightarrow> char \<Rightarrow> weekday option" where
  "documented_weekday a b =
     (if a \<in> {CHR ''m'', CHR ''M''} then Some Monday
      else if a \<in> {CHR ''w'', CHR ''W''} then Some Wednesday
      else if a \<in> {CHR ''f'', CHR ''F''} then Some Friday
      else if a \<in> {CHR ''t'', CHR ''T''} \<and> b \<in> {CHR ''u'', CHR ''U''} then Some Tuesday
      else if a \<in> {CHR ''t'', CHR ''T''} \<and> b \<in> {CHR ''h'', CHR ''H''} then Some Thursday
      else if a \<in> {CHR ''s'', CHR ''S''} \<and> b \<in> {CHR ''a'', CHR ''A''} then Some Saturday
      else if a \<in> {CHR ''s'', CHR ''S''} \<and> b \<in> {CHR ''u'', CHR ''U''} then Some Sunday
      else None)"

text \<open>
  An amount of \<open>c\<close> cents written in dollars with two decimals, as the
  specification writes its costs.
\<close>

definition dollars_and_cents :: "int \<Rightarrow> string" where
  "dollars_and_cents c =
     to_string (c div 100) @ [CHR ''.'']
       @ [digit_char (nat (c mod 100) div 10), digit_char (nat (c mod 100) mod 10)]"

section \<open>Auxiliary facts about the reading loops\<close>

lemma result_io_simps [simp]:
  "result_io (Returned x s) = s" "result_io (Input_failed s) = s" "result_io (Threw e s) = s"
  by (simp_all add: result_io_def)

lemma cout_print [simp]: "cout (print s st) = cout st @ s"
  by (simp add: print_def)

lemma cout_ignore_line [simp]: "cout (ignore_line st) = cout st"
  by (simp add: ignore_line_def)

lemma cout_read_char: "read_char st = Some (c, st') \<Longrightarrow> cout st' = cout st"
  by (auto simp: read_char_def split: list.splits)

lemma cout_read_int: "read_int st = Some (v, st') \<Longrightarrow> cout st' = cout st"
  by (auto simp: read_int_def Let_def split: if_splits)

lemma cout_read_token: "read_token st = Some (tok, st') \<Longrightarrow> cout st' = cout st"
  by (auto simp: read_token_def Let_def split: if_splits)

lemma cout_exhausted [simp]: "cout (exhausted st) = cout st"
  by (simp add: exhausted_def)

lemma cout_extract_char: "extract_char st = (r, st') \<Longrightarrow> cout st' = cout st"
  by (auto simp: extract_char_def split: option.splits dest: cout_read_char)

lemma cout_extract_int: "extract_int st = (r, st') \<Longrightarrow> cout st' = cout st"
  by (auto simp: extract_int_def split: option.splits dest: cout_read_int)

lemma cout_extract_token: "extract_token st = (r, st') \<Longrightarrow> cout st' = cout st"
  by (auto simp: extract_token_def split: option.splits dest: cout_read_token)

text \<open>On variables that were all written the checks are the loop body.\<close>

lemma get_day_of_week_checks_Some:
  "get_day_of_week_checks d (Some a) (Some b) = Some (get_day_of_week_body d a b)"
  by (simp add: get_day_of_week_checks_def get_day_of_week_body_def)

lemma get_start_time_checks_Some:
  "get_start_time_checks d (Some h) (Some m) = Some (get_start_time_body d h m)"
  by (simp add: get_start_time_checks_def get_start_time_body_def)

text \<open>The day of the week: one pass on two letters read, and the output of the loop.\<close>

lemma get_day_of_week_step:
  assumes "read_char (print day_prompt st) = Some (a, st1)" and "read_char st1 = Some (b, st2)"
    and "get_day_of_week_body d a b = (msg, d2, v)"
  shows "get_day_of_week d st =
           (if v then Returned d2 (print msg (ignore_line st2))
            else get_day_of_week d2 (print msg (ignore_line st2)))"
    and "cout (print msg (ignore_line st2)) = cout st @ day_prompt @ msg"
proof -
  have "get_day_of_week_pass d st =
      (if v then Leave (Returned d2 (print msg (ignore_line st2)))
       else Again d2 (print msg (ignore_line st2)))"
    using assms
    by (simp add: get_day_of_week_pass_def extract_char_def get_day_of_week_checks_Some)
  then show "get_day_of_week d st =
           (if v then Returned d2 (print msg (ignore_line st2))
            else get_day_of_week d2 (print msg (ignore_line st2)))"
    by (subst get_day_of_week.simps) simp
  show "cout (print msg (ignore_line st2)) = cout st @ day_prompt @ msg"
    using cout_read_char [OF assms(1)] cout_read_char [OF assms(2)] by simp
qed

lemma get_day_of_week_pass_cout:
  assumes "get_day_of_week_pass d st = p"
  shows "\<exists>rest. cout (case p of Leave r \<Rightarrow> result_io r | Again d' st' \<Rightarrow> st')
           = cout st @ day_prompt @ rest"
proof -
  obtain f st1 where e1: "extract_char (print day_prompt st) = (f, st1)"
    by (cases "extract_char (print day_prompt st)")
  obtain s st2 where e2: "extract_char st1 = (s, st2)"
    by (cases "extract_char st1")
  have c: "cout (ignore_line st2) = cout st @ day_prompt"
    using cout_extract_char [OF e1] cout_extract_char [OF e2] by simp
  show ?thesis
  proof (cases "get_day_of_week_checks d f s")
    case None
    with assms e1 e2 c show ?thesis by (auto simp: get_day_of_week_pass_def)
  next
    case (Some t)
    obtain msg d2 v where t: "t = (msg, d2, v)" by (cases t) auto
    with Some assms e1 e2 c show ?thesis by (auto simp: get_day_of_week_pass_def)
  qed
qed

lemma get_day_of_week_output:
  "\<exists>rest. cout (result_io (get_day_of_week d st)) = cout st @ day_prompt @ rest"
proof (induction d st rule: get_day_of_week.induct)
  case (1 in_data st)
  show ?case
  proof (cases "get_day_of_week_pass in_data st")
    case (Leave r)
    then have "get_day_of_week in_data st = r" by (subst get_day_of_week.simps) simp
    with get_day_of_week_pass_cout [OF Leave] show ?thesis by simp
  next
    case (Again d2 st2)
    then have eq: "get_day_of_week in_data st = get_day_of_week d2 st2"
      by (subst get_day_of_week.simps) simp
    from get_day_of_week_pass_cout [OF Again] obtain r1 where
      "cout st2 = cout st @ day_prompt @ r1" by auto
    moreover from "1.IH" [OF Again] obtain r2 where
      "cout (result_io (get_day_of_week d2 st2)) = cout st2 @ day_prompt @ r2" by auto
    ultimately show ?thesis using eq by simp
  qed
qed

text \<open>The start time: one pass on a pair read, and the output of the loop.\<close>

lemma get_start_time_step:
  assumes "read_int (print time_prompt st) = Some (h, st1)" and "read_char st1 = Some (c, st2)"
    and "read_int st2 = Some (m, st3)" and "get_start_time_body d h m = (msg, d2, v)"
  shows "get_start_time d st =
           (if v then Returned d2 (print msg (ignore_line st3))
            else get_start_time d2 (print msg (ignore_line st3)))"
    and "cout (print msg (ignore_line st3)) = cout st @ time_prompt @ msg"
proof -
  have "get_start_time_pass d st =
      (if v then Leave (Returned d2 (print msg (ignore_line st3)))
       else Again d2 (print msg (ignore_line st3)))"
    using assms
    by (simp add: get_start_time_pass_def extract_int_def extract_char_def
        get_start_time_checks_Some)
  then show "get_start_time d st =
           (if v then Returned d2 (print msg (ignore_line st3))
            else get_start_time d2 (print msg (ignore_line st3)))"
    by (subst get_start_time.simps) simp
  show "cout (print msg (ignore_line st3)) = cout st @ time_prompt @ msg"
    using cout_read_int [OF assms(1)] cout_read_char [OF assms(2)] cout_read_int [OF assms(3)]
    by simp
qed

lemma get_start_time_pass_cout:
  assumes "get_start_time_pass d st = p"
  shows "\<exists>rest. cout (case p of Leave r \<Rightarrow> result_io r | Again d' st' \<Rightarrow> st')
           = cout st @ time_prompt @ rest"
proof -
  obtain h st1 where e1: "extract_int (print time_prompt st) = (h, st1)"
    by (cases "extract_int (print time_prompt st)")
  obtain c st2 where e2: "extract_char st1 = (c, st2)"
    by (cases "extract_char st1")
  obtain m st3 where e3: "extract_int st2 = (m, st3)"
    by (cases "extract_int st2")
  have c: "cout (ignore_line st3) = cout st @ time_prompt"
    using cout_extract_int [OF e1] cout_extract_char [OF e2] cout_extract_int [OF e3] by simp
  show ?thesis
  proof (cases "get_start_time_checks d h m")
    case None
    with assms e1 e2 e3 c show ?thesis by (auto simp: get_start_time_pass_def)
  next
    case (Some t)
    obtain msg d2 v where t: "t = (msg, d2, v)" by (cases t) auto
    with Some assms e1 e2 e3 c show ?thesis by (auto simp: get_start_time_pass_def)
  qed
qed

lemma get_start_time_output:
  "\<exists>rest. cout (result_io (get_start_time d st)) = cout st @ time_prompt @ rest"
proof (induction d st rule: get_start_time.induct)
  case (1 in_data st)
  show ?case
  proof (cases "get_start_time_pass in_data st")
    case (Leave r)
    then have "get_start_time in_data st = r" by (subst get_start_time.simps) simp
    with get_start_time_pass_cout [OF Leave] show ?thesis by simp
  next
    case (Again d2 st2)
    then have eq: "get_start_time in_data st = get_start_time d2 st2"
      by (subst get_start_time.simps) simp
    from get_start_time_pass_cout [OF Again] obtain r1 where
      "cout st2 = cout st @ time_prompt @ r1" by auto
    moreover from "1.IH" [OF Again] obtain r2 where
      "cout (result_io (get_start_time d2 st2)) = cout st2 @ time_prompt @ r2" by auto
    ultimately show ?thesis using eq by simp
  qed
qed

text \<open>The length of the call: one pass on a buffer read, and the output of the loop.\<close>

lemma get_length_of_call_step:
  assumes "read_token (print length_prompt st) = Some (tok, st1)"
    and "get_length_of_call_body d tok = Inr (msg, d2, v)"
  shows "get_length_of_call d st =
           (if v then Returned d2 (print msg (ignore_line st1))
            else get_length_of_call d2 (print msg (ignore_line st1)))"
    and "cout (print msg (ignore_line st1)) = cout st @ length_prompt @ msg"
proof -
  have "get_length_of_call_pass d st =
      (if v then Leave (Returned d2 (print msg (ignore_line st1)))
       else Again d2 (print msg (ignore_line st1)))"
    using assms by (simp add: get_length_of_call_pass_def extract_token_def)
  then show "get_length_of_call d st =
           (if v then Returned d2 (print msg (ignore_line st1))
            else get_length_of_call d2 (print msg (ignore_line st1)))"
    by (subst get_length_of_call.simps) simp
  show "cout (print msg (ignore_line st1)) = cout st @ length_prompt @ msg"
    using cout_read_token [OF assms(1)] by simp
qed

lemma get_length_of_call_throw:
  assumes "read_token (print length_prompt st) = Some (tok, st1)"
    and "get_length_of_call_body d tok = Inl e"
  shows "get_length_of_call d st = Threw e (ignore_line st1)"
proof -
  have "get_length_of_call_pass d st = Leave (Threw e (ignore_line st1))"
    using assms by (simp add: get_length_of_call_pass_def extract_token_def)
  then show ?thesis by (subst get_length_of_call.simps) simp
qed

lemma get_length_of_call_pass_cout:
  assumes "get_length_of_call_pass d st = p"
  shows "\<exists>rest. cout (case p of Leave r \<Rightarrow> result_io r | Again d' st' \<Rightarrow> st')
           = cout st @ length_prompt @ rest"
proof -
  obtain t st1 where e1: "extract_token (print length_prompt st) = (t, st1)"
    by (cases "extract_token (print length_prompt st)")
  have c: "cout (ignore_line st1) = cout st @ length_prompt"
    using cout_extract_token [OF e1] by simp
  show ?thesis
  proof (cases t)
    case None
    with assms e1 c show ?thesis by (auto simp: get_length_of_call_pass_def)
  next
    case (Some tok)
    show ?thesis
    proof (cases "get_length_of_call_body d tok")
      case (Inl e)
      with Some assms e1 c show ?thesis by (auto simp: get_length_of_call_pass_def)
    next
      case (Inr u)
      obtain msg d2 v where u: "u = (msg, d2, v)" by (cases u) auto
      with Inr Some assms e1 c show ?thesis by (auto simp: get_length_of_call_pass_def)
    qed
  qed
qed

lemma get_length_of_call_output:
  "\<exists>rest. cout (result_io (get_length_of_call d st)) = cout st @ length_prompt @ rest"
proof (induction d st rule: get_length_of_call.induct)
  case (1 in_data st)
  show ?case
  proof (cases "get_length_of_call_pass in_data st")
    case (Leave r)
    then have "get_length_of_call in_data st = r" by (subst get_length_of_call.simps) simp
    with get_length_of_call_pass_cout [OF Leave] show ?thesis by simp
  next
    case (Again d2 st2)
    then have eq: "get_length_of_call in_data st = get_length_of_call d2 st2"
      by (subst get_length_of_call.simps) simp
    from get_length_of_call_pass_cout [OF Again] obtain r1 where
      "cout st2 = cout st @ length_prompt @ r1" by auto
    moreover from "1.IH" [OF Again] obtain r2 where
      "cout (result_io (get_length_of_call d2 st2)) = cout st2 @ length_prompt @ r2" by auto
    ultimately show ?thesis using eq by simp
  qed
qed

section \<open>Accuracy of the single-precision cost\<close>

text \<open>
  The rounding keeps a relative error of at most \<open>2^-24\<close> on numbers in the normal
  range.
\<close>

lemma pow2_powi: "pow2 k = 2 powi k"
  by (simp add: pow2_def power_int_def inverse_eq_divide power_one_over)

lemma bit_length_bounds:
  "0 < n \<Longrightarrow> 1 \<le> bit_length n \<and> 2 ^ nat (bit_length n - 1) \<le> n \<and> n < 2 ^ nat (bit_length n)"
proof (induction n rule: bit_length.induct)
  case (1 n)
  show ?case
  proof (cases "n div 2 = 0")
    case True
    with "1.prems" have n1: "n = 1" by presburger
    have "bit_length 1 = 1"
      by (simp add: bit_length.simps)
    with n1 show ?thesis by simp
  next
    case False
    with "1.prems" have pos: "0 < n div 2" by presburger
    from "1.IH" [of] "1.prems" pos
    have ih: "1 \<le> bit_length (n div 2)" "2 ^ nat (bit_length (n div 2) - 1) \<le> n div 2"
      "n div 2 < 2 ^ nat (bit_length (n div 2))"
      by simp_all
    have bl: "bit_length n = 1 + bit_length (n div 2)"
      using "1.prems" by (subst bit_length.simps) simp
    define b where "b = bit_length (n div 2)"
    have e1: "nat (1 + b - 1) = Suc (nat (b - 1))" using ih(1) by (simp add: b_def)
    have e2: "nat (1 + b) = Suc (nat b)" using ih(1) by (simp add: b_def)
    from ih(2) have "2 * 2 ^ nat (b - 1) \<le> n" unfolding b_def by presburger
    moreover from ih(3) have "n < 2 * 2 ^ nat b" unfolding b_def by presburger
    ultimately show ?thesis using ih(1) unfolding bl b_def [symmetric] e1 e2 by simp
  qed
qed

lemma round_half_even_error: "\<bar>of_int (round_half_even r) - r\<bar> \<le> 1 / 2"
proof -
  have "of_int \<lfloor>r\<rfloor> \<le> r" "r < of_int \<lfloor>r\<rfloor> + 1" by linarith+
  then show ?thesis
    by (auto simp: round_half_even_def Let_def)
qed

lemma round_half_even_near:
  assumes "\<bar>r - of_int c\<bar> < 1 / 2"
  shows "round_half_even r = c"
proof (cases "of_int c \<le> r")
  case True
  with assms have "\<lfloor>r\<rfloor> = c" by (intro floor_unique) linarith+
  moreover from this True assms have "r - of_int \<lfloor>r\<rfloor> < 1 / 2" by simp
  ultimately show ?thesis by (simp add: round_half_even_def Let_def)
next
  case False
  with assms have f: "\<lfloor>r\<rfloor> = c - 1" by (intro floor_unique) (simp, linarith+)
  with False assms have "1 / 2 < r - of_int \<lfloor>r\<rfloor>" by simp
  with f show ?thesis by (simp add: round_half_even_def Let_def)
qed


lemma powi_nat: "0 \<le> j \<Longrightarrow> (2::rat) powi j = 2 ^ nat j"
  by (simp add: power_int_def)

lemma ilog2_bounds:
  assumes "0 < a"
  shows "2 powi (ilog2 a) \<le> a \<and> a < 2 powi (ilog2 a + 1)"
proof -
  obtain p q where pq: "quotient_of a = (p, q)" by (cases "quotient_of a") auto
  then have q: "0 < q" and a: "a = of_int p / of_int q"
    by (auto dest: quotient_of_denom_pos quotient_of_div)
  with assms have p: "0 < p" by (simp add: zero_less_divide_iff)
  define bp where "bp = bit_length p"
  define bq where "bq = bit_length q"
  define k where "k = bp - bq"
  from bit_length_bounds [OF p] have bp: "1 \<le> bp" "2 ^ nat (bp - 1) \<le> p" "p < 2 ^ nat bp"
    by (simp_all add: bp_def)
  from bit_length_bounds [OF q] have bq: "1 \<le> bq" "2 ^ nat (bq - 1) \<le> q" "q < 2 ^ nat bq"
    by (simp_all add: bq_def)
  have P1: "(2::rat) powi (bp - 1) \<le> of_int p"
  proof -
    have "(of_int (2 ^ nat (bp - 1)) :: rat) \<le> of_int p" using bp(2) by (simp only: of_int_le_iff)
    then show ?thesis using bp(1) by (simp add: powi_nat)
  qed
  have P2: "(of_int p :: rat) < 2 powi bp"
  proof -
    have "(of_int p :: rat) < of_int (2 ^ nat bp)" using bp(3) by (simp only: of_int_less_iff)
    then show ?thesis using bp(1) by (simp add: powi_nat)
  qed
  have Q1: "(2::rat) powi (bq - 1) \<le> of_int q"
  proof -
    have "(of_int (2 ^ nat (bq - 1)) :: rat) \<le> of_int q" using bq(2) by (simp only: of_int_le_iff)
    then show ?thesis using bq(1) by (simp add: powi_nat)
  qed
  have Q2: "(of_int q :: rat) < 2 powi bq"
  proof -
    have "(of_int q :: rat) < of_int (2 ^ nat bq)" using bq(3) by (simp only: of_int_less_iff)
    then show ?thesis using bq(1) by (simp add: powi_nat)
  qed
  have pos: "0 < (2::rat) powi j" for j by simp
  have qpos: "0 < (of_int q :: rat)" "0 < (of_int p :: rat)" using q p by simp_all
  have lo: "(2::rat) powi (k - 1) \<le> a"
  proof -
    have "(2::rat) powi (k - 1) = 2 powi (bp - 1) / 2 powi bq"
      by (simp add: k_def power_int_diff [symmetric] algebra_simps)
    also have "\<dots> \<le> of_int p / of_int q"
      using P1 Q2 qpos by (intro frac_le) simp_all
    finally show ?thesis by (simp add: a)
  qed
  have hi: "a < (2::rat) powi (k + 1)"
  proof -
    have "of_int p / of_int q < (2::rat) powi bp / 2 powi (bq - 1)"
      using P2 Q1 qpos pos [of "bq - 1"] by (intro frac_less) simp_all
    also have "\<dots> = 2 powi (k + 1)"
      by (simp add: k_def power_int_diff [symmetric] algebra_simps)
    finally show ?thesis by (simp add: a)
  qed
  have il: "ilog2 a = (if a < 2 powi k then k - 1 else k)"
    by (simp add: ilog2_def pq Let_def k_def bp_def bq_def pow2_powi)
  show ?thesis
  proof (cases "a < 2 powi k")
    case True
    with lo il show ?thesis by simp
  next
    case False
    with hi il show ?thesis by simp
  qed
qed

lemma float_round_error:
  assumes "2 powi (- 126) \<le> \<bar>x\<bar>"
  shows "\<bar>float_round x - x\<bar> \<le> \<bar>x\<bar> / 16777216"
proof -
  define a where "a = \<bar>x\<bar>"
  have "(0::rat) < 2 powi (- 126)" by simp
  with assms have a0: "0 < a" unfolding a_def by linarith
  then have x0: "x \<noteq> 0" by (auto simp: a_def)
  define e where "e = ilog2 a"
  from ilog2_bounds [OF a0] have eb: "2 powi e \<le> a" "a < 2 powi (e + 1)"
    by (simp_all add: e_def)
  from assms eb(2) have "(2::rat) powi (- 126) < 2 powi (e + 1)" unfolding a_def by linarith
  have "- 126 < e + 1"
  proof (rule ccontr)
    assume "\<not> - 126 < e + 1"
    then have "e + 1 \<le> - 126" by simp
    then have "(2::rat) powi (e + 1) \<le> 2 powi (- 126)"
      by (intro power_int_increasing) simp_all
    with \<open>(2::rat) powi (- 126) < 2 powi (e + 1)\<close> show False by linarith
  qed
  then have q: "max (e - 23) (- 149) = e - 23" by simp
  define s where "s = (2::rat) powi (e - 23)"
  have s0: "0 < s" by (simp add: s_def)
  define m where "m = round_half_even (a / s)"
  have fr: "float_round x = sgn x * of_int m * s"
    using x0 by (simp add: float_round_def Let_def a_def [symmetric] e_def [symmetric] q
        pow2_powi s_def [symmetric] m_def)
  have "\<bar>of_int m - a / s\<bar> \<le> 1 / 2" unfolding m_def by (rule round_half_even_error)
  then have "\<bar>of_int m - a / s\<bar> * s \<le> 1 / 2 * s" using s0 by (intro mult_right_mono) simp_all
  moreover have "\<bar>of_int m - a / s\<bar> * s = \<bar>of_int m * s - a\<bar>"
  proof -
    have "\<bar>of_int m - a / s\<bar> * s = \<bar>(of_int m - a / s) * s\<bar>" using s0 by (simp add: abs_mult)
    also have "(of_int m - a / s) * s = of_int m * s - a" using s0 by (simp add: field_simps)
    finally show ?thesis .
  qed
  ultimately have err: "\<bar>of_int m * s - a\<bar> \<le> s / 2" by simp
  have "s = 2 powi e / 2 ^ 23"
    by (simp add: s_def power_int_diff)
  with eb(1) have "s / 2 \<le> a / 2 ^ 24" by (simp add: field_simps)
  with err have e2: "\<bar>of_int m * s - a\<bar> \<le> a / 2 ^ 24" by linarith
  have "float_round x - x = sgn x * (of_int m * s - a)"
  proof -
    have "sgn x * (of_int m * s - a) = sgn x * of_int m * s - sgn x * \<bar>x\<bar>"
      by (simp add: algebra_simps a_def)
    also have "\<dots> = float_round x - x" by (simp only: fr mult_sgn_abs)
    finally show ?thesis by simp
  qed
  then have "\<bar>float_round x - x\<bar> = \<bar>sgn x\<bar> * \<bar>of_int m * s - a\<bar>" by (simp add: abs_mult)
  also have "\<dots> = \<bar>of_int m * s - a\<bar>" using x0 by (simp add: abs_sgn_eq)
  finally show ?thesis using e2 by (simp add: a_def)
qed

text \<open>
  For a call of at most 65536 minutes the printed cost is the exact product of the
  duration and the rate, in dollars and cents: the three roundings of the single-precision
  computation stay below half a cent.
\<close>

lemma format_fixed2_nonneg:
  "0 \<le> x \<Longrightarrow> format_fixed2 x = dollars_and_cents (round_half_even (x * 100))"
  by (simp add: format_fixed2_def dollars_and_cents_def Let_def)

lemma cost_in_cents:
  assumes n: "1 \<le> n" "n \<le> 65536" and c: "0 < c" "c \<le> 40"
    and R: "\<bar>R - of_int c / 100\<bar> \<le> 1 / 100000000"
  shows "0 \<le> fmul (float_of_int n) R
    \<and> round_half_even (fmul (float_of_int n) R * 100) = c * n"
proof -
  define N :: rat where "N = of_int n"
  define C :: rat where "C = of_int c / 100"
  define x1 where "x1 = float_round N"
  define y where "y = x1 * R"
  define z where "z = float_round y"
  have z: "fmul (float_of_int n) R = z"
    by (simp add: fmul_def float_of_int_def z_def y_def x1_def N_def)
  have small: "(2::rat) powi (- 126) \<le> 1 / 1000"
    by (simp add: power_int_minus field_simps)
  have N: "1 \<le> N" "N \<le> 65536" using n by (simp_all add: N_def)
  have C: "1 / 100 \<le> C" "C \<le> 40 / 100"
  proof -
    from c have "(1::rat) \<le> of_int c" "(of_int c :: rat) \<le> 40" by simp_all
    then show "1 / 100 \<le> C" "C \<le> 40 / 100" by (simp_all add: C_def)
  qed
  from R have Rb: "C - 1 / 100000000 \<le> R" "R \<le> C + 1 / 100000000"
    "\<bar>R - C\<bar> \<le> 1 / 100000000"
    unfolding C_def by linarith+
  with C have Rr: "99 / 10000 \<le> R" "R \<le> 41 / 100" by linarith+
  then have Rabs: "\<bar>R\<bar> \<le> 41 / 100" "0 \<le> R" by linarith+
  have "2 powi (- 126) \<le> \<bar>N\<bar>" using N small by linarith
  from float_round_error [OF this] have "\<bar>x1 - N\<bar> \<le> \<bar>N\<bar> / 16777216"
    by (simp only: x1_def)
  with N have e1: "\<bar>x1 - N\<bar> \<le> 1 / 256" by linarith
  with N have x1: "255 / 256 \<le> x1" "x1 \<le> 65537" by linarith+
  have "(255 / 256) * (99 / 10000) \<le> x1 * R"
    using x1(1) Rr(1) by (intro mult_mono) simp_all
  then have ylo: "1 / 200 \<le> y" by (simp add: y_def)
  have "x1 * R \<le> 65537 * (41 / 100)"
    using x1 Rr Rabs(2) by (intro mult_mono) simp_all
  then have yhi: "y \<le> 32768" by (simp add: y_def)
  have "2 powi (- 126) \<le> \<bar>y\<bar>" using ylo small by linarith
  from float_round_error [OF this] have "\<bar>z - y\<bar> \<le> \<bar>y\<bar> / 16777216"
    by (simp only: z_def)
  with ylo yhi have e2: "\<bar>z - y\<bar> \<le> 1 / 512" by linarith
  have "\<bar>x1 - N\<bar> * \<bar>R\<bar> \<le> (1 / 256) * (41 / 100)"
    using e1 Rabs(1) by (intro mult_mono) simp_all
  then have t1: "\<bar>(x1 - N) * R\<bar> \<le> 41 / 25600" by (simp add: abs_mult)
  have "\<bar>N\<bar> * \<bar>R - C\<bar> \<le> 65536 * (1 / 100000000)"
    using N Rb(3) by (intro mult_mono) simp_all
  then have t2: "\<bar>N * (R - C)\<bar> \<le> 65536 / 100000000" by (simp add: abs_mult)
  have "y - N * C = (x1 - N) * R + N * (R - C)"
    by (simp add: y_def algebra_simps)
  with t1 t2 have e3: "\<bar>y - N * C\<bar> \<le> 41 / 25600 + 65536 / 100000000" by linarith
  from e2 e3 have e4: "\<bar>z - N * C\<bar> < 1 / 200" by linarith
  have "N * C * 100 = of_int (c * n)" by (simp add: N_def C_def)
  with e4 have "\<bar>z * 100 - of_int (c * n)\<bar> < 1 / 2" by linarith
  then have "round_half_even (z * 100) = c * n" by (rule round_half_even_near)
  moreover from e2 ylo have "0 \<le> z" by linarith
  ultimately show ?thesis by (simp add: z)
qed

lemma rate_constants:
  "\<bar>float_round (15 / 100) - of_int 15 / 100\<bar> \<le> 1 / 100000000"
  "\<bar>float_round (25 / 100) - of_int 25 / 100\<bar> \<le> 1 / 100000000"
  "\<bar>float_round (4 / 10) - of_int 40 / 100\<bar> \<le> 1 / 100000000"
  by code_simp+

lemma float_zero: "fmul (float_of_int 0) R = 0"
  by (simp add: fmul_def float_of_int_def float_round_def)

lemma displayed_cost:
  assumes "0 \<le> n" "n \<le> 65536" "0 < c" "c \<le> 40"
    and "\<bar>R - of_int c / 100\<bar> \<le> 1 / 100000000"
  shows "format_fixed2 (fmul (float_of_int n) R) = dollars_and_cents (c * n)"
proof (cases "n = 0")
  case True
  have "round_half_even 0 = 0" by (simp add: round_half_even_def)
  with True show ?thesis by (simp add: float_zero format_fixed2_nonneg)
next
  case False
  with assms(1) have "1 \<le> n" by simp
  from cost_in_cents [OF this assms(2-5)] show ?thesis
    by (simp add: format_fixed2_nonneg)
qed

text \<open>
  For every duration the cost is within a relative error of \<open>2^-22\<close> of the exact
  product of the duration and the rate: three roundings, of the rate, of the duration and
  of the product, of at most \<open>2^-24\<close> each.
\<close>

lemma cost_relative_error:
  assumes r: "1 / 100 \<le> r" "r \<le> 1" and R: "\<bar>R - r\<bar> \<le> r / 16777216"
  shows "\<bar>fmul (float_of_int n) R - of_int n * r\<bar> \<le> \<bar>of_int n\<bar> * r / 4194304"
proof (cases "n = 0")
  case True
  then show ?thesis by (simp add: float_zero)
next
  case False
  define e :: rat where "e = 1 / 16777216"
  define N' :: rat where "N' = of_int n"
  define N where "N = \<bar>N'\<bar>"
  define A where "A = N * r"
  define x1 where "x1 = float_round N'"
  define y where "y = x1 * R"
  define z where "z = float_round y"
  have z: "fmul (float_of_int n) R = z"
    by (simp add: fmul_def float_of_int_def z_def y_def x1_def N'_def)
  have e: "0 < e" "e \<le> 1 / 16777216" "(1 + e) * (1 + e) + (1 + e) + 1 \<le> 4"
    by (simp_all add: e_def)
  have small: "(2::rat) powi (- 126) \<le> 1 / 1000"
    by (simp add: power_int_minus field_simps)
  from False have "1 \<le> \<bar>n\<bar>" by simp
  then have "(1::rat) \<le> \<bar>of_int n\<bar>" by (metis of_int_1 of_int_abs of_int_le_iff)
  then have N1: "1 \<le> N" by (simp add: N_def N'_def)
  have r0: "0 < r" using r by linarith
  have A0: "0 \<le> A" using N1 r0 by (simp add: A_def)
  from R have Rb: "r - r * e \<le> R" "R \<le> r + r * e" "\<bar>R - r\<bar> \<le> r * e"
    unfolding e_def by linarith+
  have re: "r * e \<le> r / 2" using r0 by (simp add: e_def)
  with Rb r have Rr: "1 / 200 \<le> R" "0 \<le> R" "\<bar>R\<bar> = R" by linarith+
  have "2 powi (- 126) \<le> \<bar>N'\<bar>" using N1 small unfolding N_def by linarith
  from float_round_error [OF this] have e1: "\<bar>x1 - N'\<bar> \<le> N * e"
    by (simp add: x1_def N_def e_def)
  have Ne: "N * e \<le> N / 2" using N1 by (simp add: e_def)
  from e1 Ne N1 have x1b: "\<bar>x1\<bar> \<le> N + N * e" "1 / 2 \<le> \<bar>x1\<bar>"
    unfolding N_def by linarith+
  have yabs: "\<bar>y\<bar> = \<bar>x1\<bar> * R" by (simp add: y_def abs_mult Rr(3))
  have "(1 / 2) * (1 / 200) \<le> \<bar>x1\<bar> * R"
    using x1b(2) Rr(1) by (intro mult_mono) simp_all
  then have ylo: "1 / 400 \<le> \<bar>y\<bar>" by (simp add: yabs)
  have "\<bar>x1\<bar> * R \<le> (N + N * e) * (r + r * e)"
    using x1b(1) Rb(2) Rr(2) N1 e(1) by (intro mult_mono) simp_all
  then have yhi: "\<bar>y\<bar> \<le> (N + N * e) * (r + r * e)" by (simp add: yabs)
  have "2 powi (- 126) \<le> \<bar>y\<bar>" using ylo small by linarith
  from float_round_error [OF this] have "\<bar>z - y\<bar> \<le> \<bar>y\<bar> * e"
    by (simp add: z_def e_def)
  also have "\<dots> \<le> ((N + N * e) * (r + r * e)) * e"
    using yhi e(1) by (intro mult_right_mono) simp_all
  finally have t0: "\<bar>z - y\<bar> \<le> ((N + N * e) * (r + r * e)) * e" .
  have "\<bar>x1 - N'\<bar> * \<bar>R\<bar> \<le> (N * e) * (r + r * e)"
    using e1 Rb(2) Rr N1 e(1) by (intro mult_mono) simp_all
  then have t1: "\<bar>(x1 - N') * R\<bar> \<le> (N * e) * (r + r * e)" by (simp add: abs_mult)
  have "\<bar>N'\<bar> * \<bar>R - r\<bar> \<le> N * (r * e)"
    unfolding N_def using Rb(3) by (intro mult_left_mono) simp_all
  then have t2: "\<bar>N' * (R - r)\<bar> \<le> N * (r * e)" by (simp add: abs_mult)
  have "y - N' * r = (x1 - N') * R + N' * (R - r)"
    by (simp add: y_def algebra_simps)
  with t1 t2 have t3: "\<bar>y - N' * r\<bar> \<le> (N * e) * (r + r * e) + N * (r * e)" by linarith
  from t0 t3 have "\<bar>z - N' * r\<bar>
      \<le> ((N + N * e) * (r + r * e)) * e + (N * e) * (r + r * e) + N * (r * e)"
    by linarith
  also have "\<dots> = (A * e) * ((1 + e) * (1 + e) + (1 + e) + 1)"
    by (simp add: A_def algebra_simps)
  also have "\<dots> \<le> (A * e) * 4"
    using A0 e(1) e(3) by (intro mult_left_mono) simp_all
  also have "\<dots> = N * r / 4194304" by (simp add: A_def e_def)
  finally show ?thesis by (simp add: z N_def N'_def)
qed

lemma rate_constants_relative:
  "\<bar>float_round (15 / 100) - 15 / 100\<bar> \<le> (15 / 100) / 16777216"
  "\<bar>float_round (25 / 100) - 25 / 100\<bar> \<le> (25 / 100) / 16777216"
  "\<bar>float_round (4 / 10) - 4 / 10\<bar> \<le> (4 / 10) / 16777216"
  by code_simp+

section \<open>The rate table\<close>

text \<open>
  The four scenarios of the specification with a fixed cost, as the program prints them.
\<close>

lemma scenario_costs:
  "format_fixed2 (calculate_cost_of_call
      \<lparr>weekday_m = Monday, hour_m = 9, minutes_m = 30, length_of_call_m = 10\<rparr>) = ''4.00''"
  "format_fixed2 (calculate_cost_of_call
      \<lparr>weekday_m = Saturday, hour_m = 23, minutes_m = 0, length_of_call_m = 60\<rparr>) = ''9.00''"
  "format_fixed2 (calculate_cost_of_call
      \<lparr>weekday_m = Thursday, hour_m = 6, minutes_m = 0, length_of_call_m = 15\<rparr>) = ''3.75''"
  "format_fixed2 (calculate_cost_of_call
      \<lparr>weekday_m = Sunday, hour_m = 12, minutes_m = 0, length_of_call_m = 1\<rparr>) = ''0.15''"
  by code_simp+

text \<open>
  C1, as stated, fails: the cost is a \<open>float\<close>, and the single-precision product is not
  the duration times the rate. A Monday call at 8:00 of 3 minutes costs 5033165/4194304,
  not 1.2; one of 327681 minutes is printed as 131072.41, where 327681 times 0.40 is
  131072.40.
\<close>

theorem cost_not_exact_product:
  "calculate_cost_of_call
      \<lparr>weekday_m = Monday, hour_m = 8, minutes_m = 0, length_of_call_m = 3\<rparr>
     = 5033165 / 4194304
   \<and> calculate_cost_of_call
      \<lparr>weekday_m = Monday, hour_m = 8, minutes_m = 0, length_of_call_m = 3\<rparr>
     \<noteq> 3 * (4 / 10)
   \<and> format_fixed2 (calculate_cost_of_call
        \<lparr>weekday_m = Monday, hour_m = 8, minutes_m = 0, length_of_call_m = 327681\<rparr>)
     = ''131072.41''
   \<and> dollars_and_cents (40 * 327681) = ''131072.40''"
proof -
  have 1: "calculate_cost_of_call
      \<lparr>weekday_m = Monday, hour_m = 8, minutes_m = 0, length_of_call_m = 3\<rparr>
     = 5033165 / 4194304" by code_simp
  have 2: "(5033165 / 4194304 :: rat) \<noteq> 3 * (4 / 10)" by simp
  have 3: "format_fixed2 (calculate_cost_of_call
        \<lparr>weekday_m = Monday, hour_m = 8, minutes_m = 0, length_of_call_m = 327681\<rparr>)
     = ''131072.41''" by code_simp
  have 4: "dollars_and_cents (40 * 327681) = ''131072.40''" by code_simp
  from 1 2 3 4 show ?thesis by simp
qed

text \<open>
  C1, amended. For a record whose weekday is Saturday or Sunday the cost is the
  single-precision product of the duration and the \<open>float\<close> nearest to 0.15; for a
  Monday-to-Friday record with start hour in [0,7] or [19,24] it is that product with
  0.25; for a Monday-to-Friday record with start hour in [8,18] it is that product with
  the \<open>float\<close> nearest to 0.40. In each case the cost is within a relative error of
  \<open>2^-22\<close> of the duration times the rate, and for a duration from 0 to 65536 minutes the
  cost as printed, with two decimals, is exactly the duration times the rate.
\<close>

theorem cost_rate_table:
  "(weekday_m r = Saturday \<or> weekday_m r = Sunday \<longrightarrow>
      calculate_cost_of_call r = fmul (float_of_int (length_of_call_m r)) (float_round (15 / 100))
      \<and> \<bar>calculate_cost_of_call r - of_int (length_of_call_m r) * (15 / 100)\<bar>
           \<le> \<bar>of_int (length_of_call_m r)\<bar> * (15 / 100) / 4194304
      \<and> (0 \<le> length_of_call_m r \<and> length_of_call_m r \<le> 65536 \<longrightarrow>
           format_fixed2 (calculate_cost_of_call r)
             = dollars_and_cents (15 * length_of_call_m r)))
   \<and> (weekday_m r \<in> {Monday, Tuesday, Wednesday, Thursday, Friday}
        \<and> (0 \<le> hour_m r \<and> hour_m r \<le> 7 \<or> 19 \<le> hour_m r \<and> hour_m r \<le> 24) \<longrightarrow>
      calculate_cost_of_call r = fmul (float_of_int (length_of_call_m r)) (float_round (25 / 100))
      \<and> \<bar>calculate_cost_of_call r - of_int (length_of_call_m r) * (25 / 100)\<bar>
           \<le> \<bar>of_int (length_of_call_m r)\<bar> * (25 / 100) / 4194304
      \<and> (0 \<le> length_of_call_m r \<and> length_of_call_m r \<le> 65536 \<longrightarrow>
           format_fixed2 (calculate_cost_of_call r)
             = dollars_and_cents (25 * length_of_call_m r)))
   \<and> (weekday_m r \<in> {Monday, Tuesday, Wednesday, Thursday, Friday}
        \<and> 8 \<le> hour_m r \<and> hour_m r \<le> 18 \<longrightarrow>
      calculate_cost_of_call r = fmul (float_of_int (length_of_call_m r)) (float_round (4 / 10))
      \<and> \<bar>calculate_cost_of_call r - of_int (length_of_call_m r) * (4 / 10)\<bar>
           \<le> \<bar>of_int (length_of_call_m r)\<bar> * (4 / 10) / 4194304
      \<and> (0 \<le> length_of_call_m r \<and> length_of_call_m r \<le> 65536 \<longrightarrow>
           format_fixed2 (calculate_cost_of_call r)
             = dollars_and_cents (40 * length_of_call_m r)))"
proof -
  let ?n = "length_of_call_m r"
  let ?c = "calculate_cost_of_call r"
  have d: "0 \<le> ?n \<and> ?n \<le> 65536 \<longrightarrow>
      format_fixed2 (fmul (float_of_int ?n) (float_round (15 / 100))) = dollars_and_cents (15 * ?n)"
    "0 \<le> ?n \<and> ?n \<le> 65536 \<longrightarrow>
      format_fixed2 (fmul (float_of_int ?n) (float_round (25 / 100))) = dollars_and_cents (25 * ?n)"
    "0 \<le> ?n \<and> ?n \<le> 65536 \<longrightarrow>
      format_fixed2 (fmul (float_of_int ?n) (float_round (4 / 10))) = dollars_and_cents (40 * ?n)"
    using displayed_cost [of ?n 15, OF _ _ _ _ rate_constants(1)]
      displayed_cost [of ?n 25, OF _ _ _ _ rate_constants(2)]
      displayed_cost [of ?n 40, OF _ _ _ _ rate_constants(3)]
    by simp_all
  have e: "\<bar>fmul (float_of_int ?n) (float_round (15 / 100)) - of_int ?n * (15 / 100)\<bar>
        \<le> \<bar>of_int ?n\<bar> * (15 / 100) / 4194304"
    "\<bar>fmul (float_of_int ?n) (float_round (25 / 100)) - of_int ?n * (25 / 100)\<bar>
        \<le> \<bar>of_int ?n\<bar> * (25 / 100) / 4194304"
    "\<bar>fmul (float_of_int ?n) (float_round (4 / 10)) - of_int ?n * (4 / 10)\<bar>
        \<le> \<bar>of_int ?n\<bar> * (4 / 10) / 4194304"
    by (rule cost_relative_error [OF _ _ rate_constants_relative(1)], simp, simp)
      (rule cost_relative_error [OF _ _ rate_constants_relative(2)], simp, simp,
       rule cost_relative_error [OF _ _ rate_constants_relative(3)], simp, simp)
  have 1: "weekday_m r = Saturday \<or> weekday_m r = Sunday \<longrightarrow>
      ?c = fmul (float_of_int ?n) (float_round (15 / 100))"
    unfolding calculate_cost_of_call_def weekend_rate_def by auto
  have 2: "weekday_m r \<in> {Monday, Tuesday, Wednesday, Thursday, Friday}
        \<and> (0 \<le> hour_m r \<and> hour_m r \<le> 7 \<or> 19 \<le> hour_m r \<and> hour_m r \<le> 24) \<longrightarrow>
      ?c = fmul (float_of_int ?n) (float_round (25 / 100))"
    unfolding calculate_cost_of_call_def weekday_edge_rate_def by auto
  have 3: "weekday_m r \<in> {Monday, Tuesday, Wednesday, Thursday, Friday}
        \<and> 8 \<le> hour_m r \<and> hour_m r \<le> 18 \<longrightarrow>
      ?c = fmul (float_of_int ?n) (float_round (4 / 10))"
    unfolding calculate_cost_of_call_def weekday_normal_rate_def by auto
  have c1: "weekday_m r = Saturday \<or> weekday_m r = Sunday \<longrightarrow>
      ?c = fmul (float_of_int ?n) (float_round (15 / 100))
      \<and> \<bar>?c - of_int ?n * (15 / 100)\<bar> \<le> \<bar>of_int ?n\<bar> * (15 / 100) / 4194304
      \<and> (0 \<le> ?n \<and> ?n \<le> 65536 \<longrightarrow> format_fixed2 ?c = dollars_and_cents (15 * ?n))"
  proof
    assume "weekday_m r = Saturday \<or> weekday_m r = Sunday"
    with 1 have "?c = fmul (float_of_int ?n) (float_round (15 / 100))" by (rule mp)
    with d(1) e(1) show "?c = fmul (float_of_int ?n) (float_round (15 / 100))
      \<and> \<bar>?c - of_int ?n * (15 / 100)\<bar> \<le> \<bar>of_int ?n\<bar> * (15 / 100) / 4194304
      \<and> (0 \<le> ?n \<and> ?n \<le> 65536 \<longrightarrow> format_fixed2 ?c = dollars_and_cents (15 * ?n))"
      by (simp only:)
  qed
  have c2: "weekday_m r \<in> {Monday, Tuesday, Wednesday, Thursday, Friday}
        \<and> (0 \<le> hour_m r \<and> hour_m r \<le> 7 \<or> 19 \<le> hour_m r \<and> hour_m r \<le> 24) \<longrightarrow>
      ?c = fmul (float_of_int ?n) (float_round (25 / 100))
      \<and> \<bar>?c - of_int ?n * (25 / 100)\<bar> \<le> \<bar>of_int ?n\<bar> * (25 / 100) / 4194304
      \<and> (0 \<le> ?n \<and> ?n \<le> 65536 \<longrightarrow> format_fixed2 ?c = dollars_and_cents (25 * ?n))"
  proof
    assume "weekday_m r \<in> {Monday, Tuesday, Wednesday, Thursday, Friday}
        \<and> (0 \<le> hour_m r \<and> hour_m r \<le> 7 \<or> 19 \<le> hour_m r \<and> hour_m r \<le> 24)"
    with 2 have "?c = fmul (float_of_int ?n) (float_round (25 / 100))" by (rule mp)
    with d(2) e(2) show "?c = fmul (float_of_int ?n) (float_round (25 / 100))
      \<and> \<bar>?c - of_int ?n * (25 / 100)\<bar> \<le> \<bar>of_int ?n\<bar> * (25 / 100) / 4194304
      \<and> (0 \<le> ?n \<and> ?n \<le> 65536 \<longrightarrow> format_fixed2 ?c = dollars_and_cents (25 * ?n))"
      by (simp only:)
  qed
  have c3: "weekday_m r \<in> {Monday, Tuesday, Wednesday, Thursday, Friday}
        \<and> 8 \<le> hour_m r \<and> hour_m r \<le> 18 \<longrightarrow>
      ?c = fmul (float_of_int ?n) (float_round (4 / 10))
      \<and> \<bar>?c - of_int ?n * (4 / 10)\<bar> \<le> \<bar>of_int ?n\<bar> * (4 / 10) / 4194304
      \<and> (0 \<le> ?n \<and> ?n \<le> 65536 \<longrightarrow> format_fixed2 ?c = dollars_and_cents (40 * ?n))"
  proof
    assume "weekday_m r \<in> {Monday, Tuesday, Wednesday, Thursday, Friday}
        \<and> 8 \<le> hour_m r \<and> hour_m r \<le> 18"
    with 3 have "?c = fmul (float_of_int ?n) (float_round (4 / 10))" by (rule mp)
    with d(3) e(3) show "?c = fmul (float_of_int ?n) (float_round (4 / 10))
      \<and> \<bar>?c - of_int ?n * (4 / 10)\<bar> \<le> \<bar>of_int ?n\<bar> * (4 / 10) / 4194304
      \<and> (0 \<le> ?n \<and> ?n \<le> 65536 \<longrightarrow> format_fixed2 ?c = dollars_and_cents (40 * ?n))"
      by (simp only:)
  qed
  show ?thesis by (rule conjI [OF c1 conjI [OF c2 c3]])
qed

text \<open>
  The rate table at a Saturday call of 60 minutes, a Thursday call at 6:00 of 15 minutes
  and a Monday call at 9:30 of 10 minutes.
\<close>

theorem cost_rate_table_witness:
  "calculate_cost_of_call
      \<lparr>weekday_m = Saturday, hour_m = 23, minutes_m = 0, length_of_call_m = 60\<rparr>
     = fmul (float_of_int 60) (float_round (15 / 100))
   \<and> format_fixed2 (calculate_cost_of_call
        \<lparr>weekday_m = Saturday, hour_m = 23, minutes_m = 0, length_of_call_m = 60\<rparr>) = ''9.00''
   \<and> calculate_cost_of_call
      \<lparr>weekday_m = Thursday, hour_m = 6, minutes_m = 0, length_of_call_m = 15\<rparr>
     = fmul (float_of_int 15) (float_round (25 / 100))
   \<and> format_fixed2 (calculate_cost_of_call
        \<lparr>weekday_m = Thursday, hour_m = 6, minutes_m = 0, length_of_call_m = 15\<rparr>) = ''3.75''
   \<and> calculate_cost_of_call
      \<lparr>weekday_m = Monday, hour_m = 9, minutes_m = 30, length_of_call_m = 10\<rparr>
     = fmul (float_of_int 10) (float_round (4 / 10))
   \<and> format_fixed2 (calculate_cost_of_call
        \<lparr>weekday_m = Monday, hour_m = 9, minutes_m = 30, length_of_call_m = 10\<rparr>) = ''4.00''
   \<and> \<bar>calculate_cost_of_call
        \<lparr>weekday_m = Monday, hour_m = 8, minutes_m = 0, length_of_call_m = 327681\<rparr>
       - 327681 * (4 / 10)\<bar> \<le> 327681 * (4 / 10) / 4194304"
proof -
  let ?sa = "\<lparr>weekday_m = Saturday, hour_m = 23, minutes_m = 0, length_of_call_m = 60\<rparr>"
  let ?th = "\<lparr>weekday_m = Thursday, hour_m = 6, minutes_m = 0, length_of_call_m = 15\<rparr>"
  let ?mo = "\<lparr>weekday_m = Monday, hour_m = 9, minutes_m = 30, length_of_call_m = 10\<rparr>"
  let ?lg = "\<lparr>weekday_m = Monday, hour_m = 8, minutes_m = 0, length_of_call_m = 327681\<rparr>"
  have dc: "dollars_and_cents (15 * 60) = ''9.00''" "dollars_and_cents (25 * 15) = ''3.75''"
    "dollars_and_cents (40 * 10) = ''4.00''"
    by code_simp+
  have sa: "calculate_cost_of_call ?sa = fmul (float_of_int 60) (float_round (15 / 100))
      \<and> format_fixed2 (calculate_cost_of_call ?sa) = dollars_and_cents (15 * 60)"
    using cost_rate_table [of ?sa] by auto
  have th: "calculate_cost_of_call ?th = fmul (float_of_int 15) (float_round (25 / 100))
      \<and> format_fixed2 (calculate_cost_of_call ?th) = dollars_and_cents (25 * 15)"
    using cost_rate_table [of ?th] by auto
  have mo: "calculate_cost_of_call ?mo = fmul (float_of_int 10) (float_round (4 / 10))
      \<and> format_fixed2 (calculate_cost_of_call ?mo) = dollars_and_cents (40 * 10)"
    using cost_rate_table [of ?mo] by auto
  have lg: "\<bar>calculate_cost_of_call ?lg - 327681 * (4 / 10)\<bar> \<le> 327681 * (4 / 10) / 4194304"
    using cost_rate_table [of ?lg] by auto
  from sa th mo lg show ?thesis unfolding dc by blast
qed

text \<open>
  C2. Two records that agree on weekday, start hour and duration have the same cost,
  whatever their start minutes; a Monday-to-Friday call that starts in hour 18 is charged
  the peak rate 0.40; Friday 18:45 for 20 minutes costs 8 dollars, printed as 8.00.
\<close>

theorem cost_ignores_minutes:
  "(weekday_m a = weekday_m b \<and> hour_m a = hour_m b \<and> length_of_call_m a = length_of_call_m b
      \<longrightarrow> calculate_cost_of_call a = calculate_cost_of_call b)
   \<and> (weekday_m a \<in> {Monday, Tuesday, Wednesday, Thursday, Friday} \<and> hour_m a = 18 \<longrightarrow>
      calculate_cost_of_call a = fmul (float_of_int (length_of_call_m a)) (float_round (4 / 10)))
   \<and> calculate_cost_of_call
        \<lparr>weekday_m = Friday, hour_m = 18, minutes_m = 45, length_of_call_m = 20\<rparr> = 8
   \<and> format_fixed2 (calculate_cost_of_call
        \<lparr>weekday_m = Friday, hour_m = 18, minutes_m = 45, length_of_call_m = 20\<rparr>) = ''8.00''"
proof -
  have 1: "weekday_m a = weekday_m b \<and> hour_m a = hour_m b
      \<and> length_of_call_m a = length_of_call_m b
      \<longrightarrow> calculate_cost_of_call a = calculate_cost_of_call b"
    by (simp add: calculate_cost_of_call_def)
  have 2: "weekday_m a \<in> {Monday, Tuesday, Wednesday, Thursday, Friday} \<and> hour_m a = 18 \<longrightarrow>
      calculate_cost_of_call a = fmul (float_of_int (length_of_call_m a)) (float_round (4 / 10))"
    unfolding calculate_cost_of_call_def weekday_normal_rate_def by auto
  have 3: "calculate_cost_of_call
        \<lparr>weekday_m = Friday, hour_m = 18, minutes_m = 45, length_of_call_m = 20\<rparr> = 8"
    by code_simp
  have 4: "format_fixed2 (calculate_cost_of_call
        \<lparr>weekday_m = Friday, hour_m = 18, minutes_m = 45, length_of_call_m = 20\<rparr>) = ''8.00''"
    by code_simp
  from 1 2 3 4 show ?thesis by blast
qed


text \<open>Friday 18:45 against Friday 18:00, 20 minutes each.\<close>

theorem cost_ignores_minutes_witness:
  "calculate_cost_of_call
      \<lparr>weekday_m = Friday, hour_m = 18, minutes_m = 45, length_of_call_m = 20\<rparr>
     = calculate_cost_of_call
      \<lparr>weekday_m = Friday, hour_m = 18, minutes_m = 0, length_of_call_m = 20\<rparr>
   \<and> calculate_cost_of_call
      \<lparr>weekday_m = Friday, hour_m = 18, minutes_m = 45, length_of_call_m = 20\<rparr>
     = fmul (float_of_int 20) (float_round (4 / 10))"
  using cost_ignores_minutes
    [of "\<lparr>weekday_m = Friday, hour_m = 18, minutes_m = 45, length_of_call_m = 20\<rparr>"
        "\<lparr>weekday_m = Friday, hour_m = 18, minutes_m = 0, length_of_call_m = 20\<rparr>"]
  by simp

section \<open>Validation of the input\<close>

text \<open>
  What the loop of \<open>get_start_time\<close> does when a number cannot be extracted. With
  \<open>9:xx\<close> the extraction stores 0 in the minutes, so the loop accepts 9:00 and returns; the
  stream has failed, and nothing after it is read. With \<open>99999999999:30\<close> the extraction
  stores the largest \<open>int\<close> in the hour, and the loop prints the hour message; on its next
  pass no extraction writes the hour.
\<close>

lemma get_start_time_unparsed:
  "get_start_time new_data \<lparr>cin = ''9:xx'' @ endl @ ''10'' @ endl, cout = []\<rparr>
     = Returned (new_data\<lparr>hour_m := 9, minutes_m := 0\<rparr>) \<lparr>cin = [], cout = time_prompt\<rparr>"
  "get_start_time new_data \<lparr>cin = ''99999999999:30'' @ endl, cout = []\<rparr>
     = Input_failed
         \<lparr>cin = [],
          cout = time_prompt @ ''You entered an invalid hour.'' @ endl @ time_prompt\<rparr>"
  by code_simp+

text \<open>
  C3. Read start time accepts a parsed pair of hour and minutes exactly when the hour is
  in [0,24], the minutes are in [0,59], and it is not hour 24 with minutes above 0: it then
  stores both and returns. An hour out of range produces "You entered an invalid hour.";
  otherwise minutes that are rejected produce "You entered an invalid minutes."; in both
  cases the record is left as it was and the loop runs again, so that the prompt follows
  the message in the output.
\<close>

theorem start_time_validation:
  "(snd (snd (get_start_time_body d h m)) \<longleftrightarrow>
      0 \<le> h \<and> h \<le> 24 \<and> 0 \<le> m \<and> m \<le> 59 \<and> \<not> (h = 24 \<and> 0 < m))
   \<and> (0 \<le> h \<and> h \<le> 24 \<and> 0 \<le> m \<and> m \<le> 59 \<and> \<not> (h = 24 \<and> 0 < m) \<longrightarrow>
        get_start_time_body d h m = ([], d\<lparr>hour_m := h, minutes_m := m\<rparr>, True))
   \<and> (h < 0 \<or> 24 < h \<longrightarrow>
        get_start_time_body d h m = (''You entered an invalid hour.'' @ endl, d, False))
   \<and> (0 \<le> h \<and> h \<le> 24 \<and> (m < 0 \<or> 59 < m \<or> h = 24 \<and> 0 < m) \<longrightarrow>
        get_start_time_body d h m = (''You entered an invalid minutes.'' @ endl, d, False))
   \<and> (read_int (print time_prompt st) = Some (h, st1) \<and> read_char st1 = Some (c, st2)
        \<and> read_int st2 = Some (m, st3) \<and> \<not> snd (snd (get_start_time_body d h m)) \<longrightarrow>
        get_start_time d st
          = get_start_time d (print (fst (get_start_time_body d h m)) (ignore_line st3))
        \<and> (\<exists>rest. cout (result_io (get_start_time d st))
              = cout st @ time_prompt @ fst (get_start_time_body d h m) @ time_prompt @ rest))
   \<and> (read_int (print time_prompt st) = Some (h, st1) \<and> read_char st1 = Some (c, st2)
        \<and> read_int st2 = Some (m, st3)
        \<and> 0 \<le> h \<and> h \<le> 24 \<and> 0 \<le> m \<and> m \<le> 59 \<and> \<not> (h = 24 \<and> 0 < m) \<longrightarrow>
        get_start_time d st = Returned (d\<lparr>hour_m := h, minutes_m := m\<rparr>) (ignore_line st3))"
proof -
  have 1: "snd (snd (get_start_time_body d h m)) \<longleftrightarrow>
      0 \<le> h \<and> h \<le> 24 \<and> 0 \<le> m \<and> m \<le> 59 \<and> \<not> (h = 24 \<and> 0 < m)"
    by (auto simp: get_start_time_body_def)
  have 2: "0 \<le> h \<and> h \<le> 24 \<and> 0 \<le> m \<and> m \<le> 59 \<and> \<not> (h = 24 \<and> 0 < m) \<longrightarrow>
        get_start_time_body d h m = ([], d\<lparr>hour_m := h, minutes_m := m\<rparr>, True)"
    by (auto simp: get_start_time_body_def)
  have 3: "h < 0 \<or> 24 < h \<longrightarrow>
        get_start_time_body d h m = (''You entered an invalid hour.'' @ endl, d, False)"
    by (auto simp: get_start_time_body_def)
  have 4: "0 \<le> h \<and> h \<le> 24 \<and> (m < 0 \<or> 59 < m \<or> h = 24 \<and> 0 < m) \<longrightarrow>
        get_start_time_body d h m = (''You entered an invalid minutes.'' @ endl, d, False)"
    by (auto simp: get_start_time_body_def)
  have 5: "get_start_time d st
          = get_start_time d (print (fst (get_start_time_body d h m)) (ignore_line st3))
        \<and> (\<exists>rest. cout (result_io (get_start_time d st))
              = cout st @ time_prompt @ fst (get_start_time_body d h m) @ time_prompt @ rest)"
    if r: "read_int (print time_prompt st) = Some (h, st1)" "read_char st1 = Some (c, st2)"
      "read_int st2 = Some (m, st3)" and rej: "\<not> snd (snd (get_start_time_body d h m))"
  proof -
    obtain msg where bd: "get_start_time_body d h m = (msg, d, False)"
      using rej by (auto simp: get_start_time_body_def split: if_splits)
    note step = get_start_time_step [OF r bd]
    from step(1) have eq: "get_start_time d st = get_start_time d (print msg (ignore_line st3))"
      by simp
    obtain rest where "cout (result_io (get_start_time d (print msg (ignore_line st3))))
        = cout (print msg (ignore_line st3)) @ time_prompt @ rest"
      using get_start_time_output by blast
    with eq step(2) have "cout (result_io (get_start_time d st))
        = cout st @ time_prompt @ msg @ time_prompt @ rest" by simp
    with eq bd show ?thesis by simp
  qed
  have 6: "get_start_time d st = Returned (d\<lparr>hour_m := h, minutes_m := m\<rparr>) (ignore_line st3)"
    if r: "read_int (print time_prompt st) = Some (h, st1)" "read_char st1 = Some (c, st2)"
      "read_int st2 = Some (m, st3)"
      and acc: "0 \<le> h \<and> h \<le> 24 \<and> 0 \<le> m \<and> m \<le> 59 \<and> \<not> (h = 24 \<and> 0 < m)"
  proof -
    from 2 acc have bd: "get_start_time_body d h m = ([], d\<lparr>hour_m := h, minutes_m := m\<rparr>, True)"
      by (rule mp)
    from get_start_time_step(1) [OF r bd] show ?thesis by simp
  qed
  from 1 2 3 4 5 6 show ?thesis by blast
qed

text \<open>
  The pairs 9:30 (accepted), 25:00 (hour rejected) and 24:05 (minutes rejected), and the
  input lines \<open>24:05\<close> and \<open>9:30\<close> read by the loop.
\<close>

theorem start_time_validation_witness:
  "get_start_time_body new_data 9 30 = ([], new_data\<lparr>hour_m := 9, minutes_m := 30\<rparr>, True)
   \<and> get_start_time_body new_data 25 0 = (''You entered an invalid hour.'' @ endl, new_data, False)
   \<and> get_start_time_body new_data 24 5
        = (''You entered an invalid minutes.'' @ endl, new_data, False)
   \<and> get_start_time new_data \<lparr>cin = ''24:05'' @ endl, cout = []\<rparr>
        = get_start_time new_data
            \<lparr>cin = [], cout = time_prompt @ ''You entered an invalid minutes.'' @ endl\<rparr>
   \<and> get_start_time new_data \<lparr>cin = ''9:30'' @ endl, cout = []\<rparr>
        = Returned (new_data\<lparr>hour_m := 9, minutes_m := 30\<rparr>) \<lparr>cin = [], cout = time_prompt\<rparr>"
proof -
  let ?st = "\<lparr>cin = ''24:05'' @ endl, cout = []\<rparr>"
  let ?st1 = "\<lparr>cin = '':05'' @ endl, cout = time_prompt\<rparr>"
  let ?st2 = "\<lparr>cin = ''05'' @ endl, cout = time_prompt\<rparr>"
  let ?st3 = "\<lparr>cin = endl, cout = time_prompt\<rparr>"
  let ?su = "\<lparr>cin = ''9:30'' @ endl, cout = []\<rparr>"
  let ?su1 = "\<lparr>cin = '':30'' @ endl, cout = time_prompt\<rparr>"
  let ?su2 = "\<lparr>cin = ''30'' @ endl, cout = time_prompt\<rparr>"
  have r1: "read_int (print time_prompt ?st) = Some (24, ?st1)" by code_simp
  have r2: "read_char ?st1 = Some (CHR '':'', ?st2)" by code_simp
  have r3: "read_int ?st2 = Some (5, ?st3)" by code_simp
  have u1: "read_int (print time_prompt ?su) = Some (9, ?su1)" by code_simp
  have u2: "read_char ?su1 = Some (CHR '':'', ?su2)" by code_simp
  have u3: "read_int ?su2 = Some (30, ?st3)" by code_simp
  have ig: "ignore_line ?st3 = \<lparr>cin = [], cout = time_prompt\<rparr>" by code_simp
  have rej: "\<not> snd (snd (get_start_time_body new_data 24 5))" by code_simp
  have nx: "print (fst (get_start_time_body new_data 24 5)) (ignore_line ?st3)
      = \<lparr>cin = [], cout = time_prompt @ ''You entered an invalid minutes.'' @ endl\<rparr>"
    by code_simp
  have a: "get_start_time_body new_data 9 30 = ([], new_data\<lparr>hour_m := 9, minutes_m := 30\<rparr>, True)"
    using start_time_validation [where d = new_data and h = 9 and m = 30] by simp
  have b: "get_start_time_body new_data 25 0
      = (''You entered an invalid hour.'' @ endl, new_data, False)"
    using start_time_validation [where d = new_data and h = 25 and m = 0] by simp
  have c: "get_start_time_body new_data 24 5
      = (''You entered an invalid minutes.'' @ endl, new_data, False)"
    using start_time_validation [where d = new_data and h = 24 and m = 5] by simp
  have d: "get_start_time new_data ?st
      = get_start_time new_data
          \<lparr>cin = [], cout = time_prompt @ ''You entered an invalid minutes.'' @ endl\<rparr>"
    using start_time_validation [where d = new_data and h = 24 and m = 5 and st = ?st
        and ?st1.0 = ?st1 and c = "CHR '':''" and ?st2.0 = ?st2 and ?st3.0 = ?st3]
      r1 r2 r3 rej nx
    by simp
  have e: "get_start_time new_data ?su
      = Returned (new_data\<lparr>hour_m := 9, minutes_m := 30\<rparr>) \<lparr>cin = [], cout = time_prompt\<rparr>"
    using start_time_validation [where d = new_data and h = 9 and m = 30 and st = ?su
        and ?st1.0 = ?su1 and c = "CHR '':''" and ?st2.0 = ?su2 and ?st3.0 = ?st3]
      u1 u2 u3 ig
    by simp
  from a b c d e show ?thesis by blast
qed

text \<open>Facts about decimal digit strings and \<open>std::stoi\<close>.\<close>

lemma digits_value_snoc: "digits_value (ds @ [c]) = 10 * digits_value ds + digit_val c"
  by (simp add: digits_value_def)

lemma digits_value_nonneg:
  "\<forall>c \<in> set ds. isdigit c \<Longrightarrow> 0 \<le> digits_value ds"
proof (induction ds rule: rev_induct)
  case Nil
  show ?case by (simp add: digits_value_def)
next
  case (snoc c ds)
  then have "0 \<le> digits_value ds" by simp
  moreover from snoc.prems have "0 \<le> digit_val c"
    by (simp add: isdigit_def digit_val_def)
  ultimately show ?case by (simp add: digits_value_snoc)
qed

lemma digits_value_to_string:
  "0 \<le> n \<Longrightarrow> digits_value (digits_of n) = n"
proof (induction n rule: digits_of.induct)
  case (1 n)
  have dv: "digit_val (digit_char (nat k)) = k" if "0 \<le> k" "k < 10" for k
  proof -
    from that have "48 + nat k < 256" by simp
    then have "(of_char (char_of (48 + nat k)) :: nat) = 48 + nat k"
      by simp
    with that show ?thesis by (simp add: digit_val_def digit_char_def)
  qed
  show ?case
  proof (cases "n < 10")
    case True
    with "1.prems" dv [of n] show ?thesis
      by (subst digits_of.simps) (simp add: digits_value_def)
  next
    case False
    with "1.prems" have ih: "digits_value (digits_of (n div 10)) = n div 10"
      using "1.IH" by simp
    have "digit_val (digit_char (nat (n mod 10))) = n mod 10"
      by (rule dv) simp_all
    with False ih show ?thesis
      by (subst digits_of.simps) (simp add: digits_value_snoc)
  qed
qed

lemma stoi_digit_leading:
  assumes "isdigit (first_char s)"
  shows "stoi s = (if INT_MAX < digits_value (takeWhile isdigit s) then Inl Out_of_range
                   else Inr (digits_value (takeWhile isdigit s)))"
proof -
  from assms obtain c t where s: "s = c # t" and c: "isdigit c"
    by (cases s) (auto simp: first_char_def isdigit_def)
  from c have nsp: "\<not> isspace c" and nsign: "c \<noteq> CHR ''-''" "c \<noteq> CHR ''+''"
    by (auto simp: isdigit_def isspace_def)
  have "0 \<le> digits_value (takeWhile isdigit s)"
    by (rule digits_value_nonneg) (auto dest: set_takeWhileD)
  then have "\<not> digits_value (takeWhile isdigit s) < INT_MIN"
    by (simp add: INT_MIN_def)
  with s c nsp nsign show ?thesis
    by (simp add: stoi_def Let_def)
qed

text \<open>
  C4, as stated, fails: the buffer \<open>99999999999\<close> begins with a digit, and no duration
  is stored for it; \<open>std::stoi\<close> throws \<open>std::out_of_range\<close> and the exception leaves
  \<open>get_length_of_call\<close>.
\<close>

theorem call_length_overflow:
  "isdigit (first_char ''99999999999'')
   \<and> get_length_of_call_body new_data ''99999999999'' = Inl Out_of_range
   \<and> get_length_of_call new_data \<lparr>cin = ''99999999999'' @ endl, cout = []\<rparr>
       = Threw Out_of_range \<lparr>cin = [], cout = length_prompt\<rparr>"
proof -
  have 1: "isdigit (first_char ''99999999999'')" by code_simp
  have 2: "get_length_of_call_body new_data ''99999999999'' = Inl Out_of_range" by code_simp
  have r: "read_token (print length_prompt \<lparr>cin = ''99999999999'' @ endl, cout = []\<rparr>)
      = Some (''99999999999'', \<lparr>cin = endl, cout = length_prompt\<rparr>)" by code_simp
  have i: "ignore_line \<lparr>cin = endl, cout = length_prompt\<rparr> = \<lparr>cin = [], cout = length_prompt\<rparr>"
    by code_simp
  have 3: "get_length_of_call new_data \<lparr>cin = ''99999999999'' @ endl, cout = []\<rparr>
       = Threw Out_of_range \<lparr>cin = [], cout = length_prompt\<rparr>"
    using get_length_of_call_throw [OF r 2] i by simp
  from 1 2 3 show ?thesis by blast
qed

text \<open>
  C4, amended. Read call length rejects every buffer whose first character is not a
  digit, with the message "You did not enter a valid number." and a new prompt; for every
  buffer whose first character is a digit and whose leading run of digits has a value of
  at most 2147483647 (the largest \<open>int\<close>), it stores that value as the duration and
  returns, whatever follows the digits.
\<close>

theorem call_length_validation:
  "(\<not> isdigit (first_char s) \<longrightarrow>
      get_length_of_call_body d s = Inr (''You did not enter a valid number.'' @ endl, d, False))
   \<and> (isdigit (first_char s) \<and> digits_value (takeWhile isdigit s) \<le> INT_MAX \<longrightarrow>
      get_length_of_call_body d s
        = Inr ([], d\<lparr>length_of_call_m := digits_value (takeWhile isdigit s)\<rparr>, True))
   \<and> (read_token (print length_prompt st) = Some (s, st1) \<and> \<not> isdigit (first_char s) \<longrightarrow>
      get_length_of_call d st
        = get_length_of_call d
            (print (''You did not enter a valid number.'' @ endl) (ignore_line st1))
      \<and> (\<exists>rest. cout (result_io (get_length_of_call d st))
            = cout st @ length_prompt @ ''You did not enter a valid number.'' @ endl
                @ length_prompt @ rest))
   \<and> (read_token (print length_prompt st) = Some (s, st1) \<and> isdigit (first_char s)
        \<and> digits_value (takeWhile isdigit s) \<le> INT_MAX \<longrightarrow>
      get_length_of_call d st
        = Returned (d\<lparr>length_of_call_m := digits_value (takeWhile isdigit s)\<rparr>)
            (ignore_line st1))"
proof -
  let ?msg = "''You did not enter a valid number.'' @ endl"
  have 1: "\<not> isdigit (first_char s) \<longrightarrow> get_length_of_call_body d s = Inr (?msg, d, False)"
    by (simp add: get_length_of_call_body_def)
  have 2: "isdigit (first_char s) \<and> digits_value (takeWhile isdigit s) \<le> INT_MAX \<longrightarrow>
      get_length_of_call_body d s
        = Inr ([], d\<lparr>length_of_call_m := digits_value (takeWhile isdigit s)\<rparr>, True)"
    by (simp add: get_length_of_call_body_def stoi_digit_leading)
  have 3: "get_length_of_call d st = get_length_of_call d (print ?msg (ignore_line st1))
      \<and> (\<exists>rest. cout (result_io (get_length_of_call d st))
            = cout st @ length_prompt @ ?msg @ length_prompt @ rest)"
    if r: "read_token (print length_prompt st) = Some (s, st1)" and rej: "\<not> isdigit (first_char s)"
  proof -
    from rej 1 have bd: "get_length_of_call_body d s = Inr (?msg, d, False)" by blast
    note step = get_length_of_call_step [OF r bd]
    from step(1) have eq: "get_length_of_call d st
        = get_length_of_call d (print ?msg (ignore_line st1))" by simp
    obtain rest where "cout (result_io (get_length_of_call d (print ?msg (ignore_line st1))))
        = cout (print ?msg (ignore_line st1)) @ length_prompt @ rest"
      using get_length_of_call_output by blast
    with eq step(2) have "cout (result_io (get_length_of_call d st))
        = cout st @ length_prompt @ ?msg @ length_prompt @ rest" by simp
    with eq show ?thesis by blast
  qed
  have 4: "get_length_of_call d st
        = Returned (d\<lparr>length_of_call_m := digits_value (takeWhile isdigit s)\<rparr>)
            (ignore_line st1)"
    if r: "read_token (print length_prompt st) = Some (s, st1)"
      and acc: "isdigit (first_char s)" "digits_value (takeWhile isdigit s) \<le> INT_MAX"
  proof -
    from 2 acc have bd: "get_length_of_call_body d s
        = Inr ([], d\<lparr>length_of_call_m := digits_value (takeWhile isdigit s)\<rparr>, True)"
      by blast
    from get_length_of_call_step(1) [OF r bd] show ?thesis by simp
  qed
  from 1 2 3 4 show ?thesis unfolding append_assoc by blast
qed

text \<open>
  The buffers \<open>x10\<close> (rejected) and \<open>12ab\<close> (stored as 12), each as a buffer and as an
  input line.
\<close>

theorem call_length_validation_witness:
  "get_length_of_call_body new_data ''x10''
     = Inr (''You did not enter a valid number.'' @ endl, new_data, False)
   \<and> get_length_of_call_body new_data ''12ab'' = Inr ([], new_data\<lparr>length_of_call_m := 12\<rparr>, True)
   \<and> get_length_of_call new_data \<lparr>cin = ''x10'' @ endl, cout = []\<rparr>
       = get_length_of_call new_data
           \<lparr>cin = [], cout = length_prompt @ ''You did not enter a valid number.'' @ endl\<rparr>
   \<and> get_length_of_call new_data \<lparr>cin = ''12ab'' @ endl, cout = []\<rparr>
       = Returned (new_data\<lparr>length_of_call_m := 12\<rparr>) \<lparr>cin = [], cout = length_prompt\<rparr>"
proof -
  let ?st = "\<lparr>cin = ''x10'' @ endl, cout = []\<rparr>"
  let ?su = "\<lparr>cin = ''12ab'' @ endl, cout = []\<rparr>"
  let ?st1 = "\<lparr>cin = endl, cout = length_prompt\<rparr>"
  have nd: "\<not> isdigit (first_char ''x10'')" by code_simp
  have dg: "isdigit (first_char ''12ab'')" by code_simp
  have v: "digits_value (takeWhile isdigit ''12ab'') = 12" by code_simp
  have le: "(12::int) \<le> INT_MAX" by code_simp
  have r: "read_token (print length_prompt ?st) = Some (''x10'', ?st1)" by code_simp
  have u: "read_token (print length_prompt ?su) = Some (''12ab'', ?st1)" by code_simp
  have ig: "ignore_line ?st1 = \<lparr>cin = [], cout = length_prompt\<rparr>" by code_simp
  have nx: "print (''You did not enter a valid number.'' @ endl) (ignore_line ?st1)
      = \<lparr>cin = [], cout = length_prompt @ ''You did not enter a valid number.'' @ endl\<rparr>"
    by code_simp
  have a: "get_length_of_call_body new_data ''x10''
     = Inr (''You did not enter a valid number.'' @ endl, new_data, False)"
    using call_length_validation [where d = new_data and s = "''x10''"] nd by blast
  have b: "get_length_of_call_body new_data ''12ab''
     = Inr ([], new_data\<lparr>length_of_call_m := 12\<rparr>, True)"
    using call_length_validation [where d = new_data and s = "''12ab''"] dg v le by simp
  have c: "get_length_of_call new_data ?st
       = get_length_of_call new_data
           \<lparr>cin = [], cout = length_prompt @ ''You did not enter a valid number.'' @ endl\<rparr>"
    using call_length_validation [where d = new_data and s = "''x10''" and st = ?st
        and ?st1.0 = ?st1] nd r nx by simp
  have d: "get_length_of_call new_data ?su
       = Returned (new_data\<lparr>length_of_call_m := 12\<rparr>) \<lparr>cin = [], cout = length_prompt\<rparr>"
    using call_length_validation [where d = new_data and s = "''12ab''" and st = ?su
        and ?st1.0 = ?st1] dg v le u ig by simp
  from a b c d show ?thesis by blast
qed

text \<open>Facts about \<open>tolower\<close>: which characters it sends to a given small letter.\<close>

lemma of_char_tolower:
  "(of_char (tolower c) :: nat) = (if isupper c then of_char c + 32 else of_char c)"
  by (simp add: tolower_def isupper_def)

lemma char_eq_code: "c = d \<longleftrightarrow> (of_char c :: nat) = of_char d"
  by simp

lemma tolower_eq_iff:
  assumes "islower l"
  shows "tolower c = l \<longleftrightarrow> c = l \<or> (of_char c :: nat) + 32 = of_char l"
proof -
  have "tolower c = l \<longleftrightarrow> (of_char (tolower c) :: nat) = of_char l"
    by (rule char_eq_code)
  also have "\<dots> \<longleftrightarrow> (of_char c :: nat) = of_char l \<or> (of_char c :: nat) + 32 = of_char l"
    using assms unfolding of_char_tolower isupper_def islower_def by auto
  also have "\<dots> \<longleftrightarrow> c = l \<or> (of_char c :: nat) + 32 = of_char l"
    by simp
  finally show ?thesis .
qed

lemma tolower_letter:
  assumes "islower l" and "(of_char u :: nat) + 32 = of_char l"
  shows "tolower c = l \<longleftrightarrow> c = l \<or> c = u"
proof -
  have "(of_char c :: nat) + 32 = of_char l \<longleftrightarrow> (of_char c :: nat) + 32 = of_char u + 32"
    by (simp only: assms(2))
  also have "\<dots> \<longleftrightarrow> (of_char c :: nat) = of_char u"
    by (rule add_right_cancel)
  also have "\<dots> \<longleftrightarrow> c = u" by (rule char_eq_code [symmetric])
  finally show ?thesis using tolower_eq_iff [OF assms(1), of c] by simp
qed

lemma tolower_m: "tolower c = CHR ''m'' \<longleftrightarrow> c = CHR ''m'' \<or> c = CHR ''M''"
  by (rule tolower_letter) (simp_all add: islower_def)

lemma tolower_t: "tolower c = CHR ''t'' \<longleftrightarrow> c = CHR ''t'' \<or> c = CHR ''T''"
  by (rule tolower_letter) (simp_all add: islower_def)

lemma tolower_w: "tolower c = CHR ''w'' \<longleftrightarrow> c = CHR ''w'' \<or> c = CHR ''W''"
  by (rule tolower_letter) (simp_all add: islower_def)

lemma tolower_f: "tolower c = CHR ''f'' \<longleftrightarrow> c = CHR ''f'' \<or> c = CHR ''F''"
  by (rule tolower_letter) (simp_all add: islower_def)

lemma tolower_s: "tolower c = CHR ''s'' \<longleftrightarrow> c = CHR ''s'' \<or> c = CHR ''S''"
  by (rule tolower_letter) (simp_all add: islower_def)

lemma tolower_u: "tolower c = CHR ''u'' \<longleftrightarrow> c = CHR ''u'' \<or> c = CHR ''U''"
  by (rule tolower_letter) (simp_all add: islower_def)

lemma tolower_h: "tolower c = CHR ''h'' \<longleftrightarrow> c = CHR ''h'' \<or> c = CHR ''H''"
  by (rule tolower_letter) (simp_all add: islower_def)

lemma tolower_a: "tolower c = CHR ''a'' \<longleftrightarrow> c = CHR ''a'' \<or> c = CHR ''A''"
  by (rule tolower_letter) (simp_all add: islower_def)

lemmas tolower_letters =
  tolower_m tolower_t tolower_w tolower_f tolower_s tolower_u tolower_h tolower_a

text \<open>The loop body on two letters, by the documented table.\<close>

lemma get_day_of_week_body_documented:
  assumes "isalpha a" and "isalpha b"
  shows "snd (get_day_of_week_body d a b) =
           (case documented_weekday a b of
              Some w \<Rightarrow> (d\<lparr>weekday_m := w\<rparr>, True)
            | None \<Rightarrow> (d, False))"
  using assms
  unfolding get_day_of_week_body_def documented_weekday_def tolower_letters
  by auto

lemma get_day_of_week_body_accept_silent:
  "snd (snd (get_day_of_week_body d a b)) \<Longrightarrow> fst (get_day_of_week_body d a b) = []"
  by (auto simp: get_day_of_week_body_def split: if_splits)

lemma get_day_of_week_body_reject:
  "\<not> snd (snd (get_day_of_week_body d a b)) \<Longrightarrow> fst (snd (get_day_of_week_body d a b)) = d"
  by (auto simp: get_day_of_week_body_def split: if_splits)


lemma print_Nil [simp]: "print [] st = st"
  by (simp add: print_def)

lemma get_day_of_week_body_accept:
  assumes "snd (snd (get_day_of_week_body d a b))"
  shows "\<exists>w. w \<noteq> None_day \<and> get_day_of_week_body d a b = ([], d\<lparr>weekday_m := w\<rparr>, True)"
  using assms by (auto simp: get_day_of_week_body_def split: if_splits)

lemma get_start_time_body_reject:
  "\<not> snd (snd (get_start_time_body d h m)) \<Longrightarrow> fst (snd (get_start_time_body d h m)) = d"
  by (auto simp: get_start_time_body_def split: if_splits)

lemma get_start_time_body_accept:
  "snd (snd (get_start_time_body d h m)) \<Longrightarrow>
     get_start_time_body d h m = ([], d\<lparr>hour_m := h, minutes_m := m\<rparr>, True)"
  by (auto simp: get_start_time_body_def split: if_splits)

lemma get_length_of_call_body_cases:
  assumes "get_length_of_call_body d s = Inr (msg, d2, v)"
  shows "(\<not> v \<and> d2 = d) \<or> (v \<and> (\<exists>n. d2 = d\<lparr>length_of_call_m := n\<rparr>))"
  using assms by (auto simp: get_length_of_call_body_def split: if_splits sum.splits)

text \<open>What each reading function returns: the record it was given with its own fields set.\<close>

lemma get_day_of_week_pass_data:
  assumes "get_day_of_week_pass d st = p"
  shows "case p of
           Again d' st' \<Rightarrow> d' = d
         | Leave r \<Rightarrow>
             (case r of
                Returned d' st' \<Rightarrow> \<exists>w. w \<noteq> None_day \<and> d' = d\<lparr>weekday_m := w\<rparr>
              | _ \<Rightarrow> True)"
proof -
  obtain f st1 where e1: "extract_char (print day_prompt st) = (f, st1)"
    by (cases "extract_char (print day_prompt st)")
  obtain s st2 where e2: "extract_char st1 = (s, st2)"
    by (cases "extract_char st1")
  show ?thesis
  proof (cases "get_day_of_week_checks d f s")
    case None
    with assms e1 e2 show ?thesis by (auto simp: get_day_of_week_pass_def)
  next
    case (Some t)
    obtain msg d2 v where t: "t = (msg, d2, v)" by (cases t) auto
    from Some t have "(\<not> v \<and> d2 = d) \<or> (\<exists>a b. get_day_of_week_body d a b = (msg, d2, v))"
      by (auto simp: get_day_of_week_checks_def split: option.splits if_splits)
    then have k: "(\<not> v \<and> d2 = d) \<or> (v \<and> (\<exists>w. w \<noteq> None_day \<and> d2 = d\<lparr>weekday_m := w\<rparr>))"
    proof
      assume "\<not> v \<and> d2 = d"
      then show ?thesis by simp
    next
      assume "\<exists>a b. get_day_of_week_body d a b = (msg, d2, v)"
      then obtain a b where bd: "get_day_of_week_body d a b = (msg, d2, v)" by blast
      show ?thesis
      proof (cases v)
        case True
        with bd get_day_of_week_body_accept [of d a b] show ?thesis by auto
      next
        case False
        with bd get_day_of_week_body_reject [of d a b] show ?thesis by simp
      qed
    qed
    from k Some t assms e1 e2 show ?thesis by (auto simp: get_day_of_week_pass_def)
  qed
qed

lemma get_day_of_week_returns:
  "get_day_of_week d st = Returned d' st' \<Longrightarrow>
     \<exists>w. w \<noteq> None_day \<and> d' = d\<lparr>weekday_m := w\<rparr>"
proof (induction d st rule: get_day_of_week.induct)
  case (1 in_data st)
  show ?case
  proof (cases "get_day_of_week_pass in_data st")
    case (Leave r)
    with "1.prems" have "r = Returned d' st'"
      by (subst (asm) get_day_of_week.simps) simp
    with Leave get_day_of_week_pass_data [OF Leave] show ?thesis by simp
  next
    case (Again d2 st2)
    with "1.prems" have "get_day_of_week d2 st2 = Returned d' st'"
      by (subst (asm) get_day_of_week.simps) simp
    from "1.IH" [OF Again this] get_day_of_week_pass_data [OF Again] show ?thesis by simp
  qed
qed

lemma get_start_time_pass_data:
  assumes "get_start_time_pass d st = p"
  shows "case p of
           Again d' st' \<Rightarrow> d' = d
         | Leave r \<Rightarrow>
             (case r of
                Returned d' st' \<Rightarrow>
                  \<exists>h m. snd (snd (get_start_time_body d h m))
                    \<and> d' = d\<lparr>hour_m := h, minutes_m := m\<rparr>
              | _ \<Rightarrow> True)"
proof -
  obtain h st1 where e1: "extract_int (print time_prompt st) = (h, st1)"
    by (cases "extract_int (print time_prompt st)")
  obtain c st2 where e2: "extract_char st1 = (c, st2)"
    by (cases "extract_char st1")
  obtain m st3 where e3: "extract_int st2 = (m, st3)"
    by (cases "extract_int st2")
  show ?thesis
  proof (cases "get_start_time_checks d h m")
    case None
    with assms e1 e2 e3 show ?thesis by (auto simp: get_start_time_pass_def)
  next
    case (Some t)
    obtain msg d2 v where t: "t = (msg, d2, v)" by (cases t) auto
    from Some t have "(\<not> v \<and> d2 = d) \<or> (\<exists>a b. get_start_time_body d a b = (msg, d2, v))"
      by (auto simp: get_start_time_checks_def split: option.splits if_splits)
    then have k: "(\<not> v \<and> d2 = d)
        \<or> (v \<and> (\<exists>a b. snd (snd (get_start_time_body d a b))
                    \<and> d2 = d\<lparr>hour_m := a, minutes_m := b\<rparr>))"
    proof
      assume "\<not> v \<and> d2 = d"
      then show ?thesis by simp
    next
      assume "\<exists>a b. get_start_time_body d a b = (msg, d2, v)"
      then obtain a b where bd: "get_start_time_body d a b = (msg, d2, v)" by blast
      show ?thesis
      proof (cases v)
        case True
        with bd have s: "snd (snd (get_start_time_body d a b))" by simp
        from get_start_time_body_accept [OF s] bd
        have "d2 = d\<lparr>hour_m := a, minutes_m := b\<rparr>" by simp
        with s True show ?thesis by blast
      next
        case False
        with bd get_start_time_body_reject [of d a b] show ?thesis by simp
      qed
    qed
    from k Some t assms e1 e2 e3 show ?thesis
      by (cases v) (auto simp: get_start_time_pass_def, blast)
  qed
qed

lemma get_start_time_returns:
  "get_start_time d st = Returned d' st' \<Longrightarrow>
     \<exists>h m. snd (snd (get_start_time_body d h m)) \<and> d' = d\<lparr>hour_m := h, minutes_m := m\<rparr>"
proof (induction d st rule: get_start_time.induct)
  case (1 in_data st)
  show ?case
  proof (cases "get_start_time_pass in_data st")
    case (Leave r)
    with "1.prems" have "r = Returned d' st'"
      by (subst (asm) get_start_time.simps) simp
    with Leave get_start_time_pass_data [OF Leave] show ?thesis by simp
  next
    case (Again d2 st2)
    with "1.prems" have "get_start_time d2 st2 = Returned d' st'"
      by (subst (asm) get_start_time.simps) simp
    from "1.IH" [OF Again this] get_start_time_pass_data [OF Again] show ?thesis by simp
  qed
qed

lemma get_length_of_call_pass_data:
  assumes "get_length_of_call_pass d st = p"
  shows "case p of
           Again d' st' \<Rightarrow> d' = d
         | Leave r \<Rightarrow>
             (case r of
                Returned d' st' \<Rightarrow> \<exists>n. d' = d\<lparr>length_of_call_m := n\<rparr>
              | _ \<Rightarrow> True)"
proof -
  obtain t st1 where e1: "extract_token (print length_prompt st) = (t, st1)"
    by (cases "extract_token (print length_prompt st)")
  show ?thesis
  proof (cases t)
    case None
    with assms e1 show ?thesis by (auto simp: get_length_of_call_pass_def)
  next
    case (Some tok)
    show ?thesis
    proof (cases "get_length_of_call_body d tok")
      case (Inl e)
      with Some assms e1 show ?thesis by (auto simp: get_length_of_call_pass_def)
    next
      case (Inr u)
      obtain msg d2 v where u: "u = (msg, d2, v)" by (cases u) auto
      with Inr have bd: "get_length_of_call_body d tok = Inr (msg, d2, v)" by simp
      from get_length_of_call_body_cases [OF bd] bd Some assms e1 show ?thesis
        by (auto simp: get_length_of_call_pass_def)
    qed
  qed
qed

lemma get_length_of_call_returns:
  "get_length_of_call d st = Returned d' st' \<Longrightarrow> \<exists>n. d' = d\<lparr>length_of_call_m := n\<rparr>"
proof (induction d st rule: get_length_of_call.induct)
  case (1 in_data st)
  show ?case
  proof (cases "get_length_of_call_pass in_data st")
    case (Leave r)
    with "1.prems" have "r = Returned d' st'"
      by (subst (asm) get_length_of_call.simps) simp
    with Leave get_length_of_call_pass_data [OF Leave] show ?thesis by simp
  next
    case (Again d2 st2)
    with "1.prems" have "get_length_of_call d2 st2 = Returned d' st'"
      by (subst (asm) get_length_of_call.simps) simp
    from "1.IH" [OF Again this] get_length_of_call_pass_data [OF Again] show ?thesis by simp
  qed
qed

text \<open>
  C5. For two alphabetic characters the loop body of Read weekday succeeds exactly on
  the documented two-letter codes, in either case of each letter, and sets the documented
  day; on every other pair of letters it sets nothing, and the loop prompts again.
\<close>

theorem weekday_decoding:
  "(isalpha a \<and> isalpha b \<longrightarrow>
      (case documented_weekday a b of
         Some w \<Rightarrow> get_day_of_week_body d a b = ([], d\<lparr>weekday_m := w\<rparr>, True)
       | None \<Rightarrow> snd (get_day_of_week_body d a b) = (d, False)))
   \<and> (isalpha a \<and> isalpha b \<and> documented_weekday a b = Some w
        \<and> read_char (print day_prompt st) = Some (a, st1) \<and> read_char st1 = Some (b, st2) \<longrightarrow>
      get_day_of_week d st = Returned (d\<lparr>weekday_m := w\<rparr>) (ignore_line st2))
   \<and> (isalpha a \<and> isalpha b \<and> documented_weekday a b = None
        \<and> read_char (print day_prompt st) = Some (a, st1) \<and> read_char st1 = Some (b, st2) \<longrightarrow>
      get_day_of_week d st
        = get_day_of_week d (print (fst (get_day_of_week_body d a b)) (ignore_line st2))
      \<and> (\<exists>rest. cout (result_io (get_day_of_week d st))
            = cout st @ day_prompt @ fst (get_day_of_week_body d a b) @ day_prompt @ rest))"
proof -
  have 1: "(case documented_weekday a b of
         Some w \<Rightarrow> get_day_of_week_body d a b = ([], d\<lparr>weekday_m := w\<rparr>, True)
       | None \<Rightarrow> snd (get_day_of_week_body d a b) = (d, False))"
    if al: "isalpha a" "isalpha b"
  proof (cases "documented_weekday a b")
    case None
    with get_day_of_week_body_documented [OF al, of d] show ?thesis by simp
  next
    case (Some w)
    with get_day_of_week_body_documented [OF al, of d]
    have s: "snd (get_day_of_week_body d a b) = (d\<lparr>weekday_m := w\<rparr>, True)" by simp
    then have "snd (snd (get_day_of_week_body d a b))" by simp
    then have "fst (get_day_of_week_body d a b) = []"
      by (rule get_day_of_week_body_accept_silent)
    with s have "get_day_of_week_body d a b = ([], d\<lparr>weekday_m := w\<rparr>, True)"
      by (cases "get_day_of_week_body d a b") simp
    with Some show ?thesis by simp
  qed
  have 2: "get_day_of_week d st = Returned (d\<lparr>weekday_m := w\<rparr>) (ignore_line st2)"
    if al: "isalpha a" "isalpha b" and dw: "documented_weekday a b = Some w"
      and r: "read_char (print day_prompt st) = Some (a, st1)" "read_char st1 = Some (b, st2)"
  proof -
    from 1 [OF al] dw
    have bd: "get_day_of_week_body d a b = ([], d\<lparr>weekday_m := w\<rparr>, True)" by simp
    from get_day_of_week_step(1) [OF r bd] show ?thesis by simp
  qed
  have 3: "get_day_of_week d st
        = get_day_of_week d (print (fst (get_day_of_week_body d a b)) (ignore_line st2))
      \<and> (\<exists>rest. cout (result_io (get_day_of_week d st))
            = cout st @ day_prompt @ fst (get_day_of_week_body d a b) @ day_prompt @ rest)"
    if al: "isalpha a" "isalpha b" and dw: "documented_weekday a b = None"
      and r: "read_char (print day_prompt st) = Some (a, st1)" "read_char st1 = Some (b, st2)"
  proof -
    from 1 [OF al] dw have "snd (get_day_of_week_body d a b) = (d, False)" by simp
    then obtain msg where bd: "get_day_of_week_body d a b = (msg, d, False)"
      by (cases "get_day_of_week_body d a b") simp
    note step = get_day_of_week_step [OF r bd]
    from step(1) have eq: "get_day_of_week d st = get_day_of_week d (print msg (ignore_line st2))"
      by simp
    obtain rest where "cout (result_io (get_day_of_week d (print msg (ignore_line st2))))
        = cout (print msg (ignore_line st2)) @ day_prompt @ rest"
      using get_day_of_week_output by blast
    with eq step(2) have "cout (result_io (get_day_of_week d st))
        = cout st @ day_prompt @ msg @ day_prompt @ rest" by simp
    with eq bd show ?thesis by simp
  qed
  from 1 2 3 show ?thesis by blast
qed

text \<open>
  The letters \<open>Th\<close> (Thursday) and \<open>xy\<close> (no day), each as a pair and as an input line.
\<close>

theorem weekday_decoding_witness:
  "get_day_of_week_body new_data (CHR ''T'') (CHR ''h'')
     = ([], new_data\<lparr>weekday_m := Thursday\<rparr>, True)
   \<and> snd (get_day_of_week_body new_data (CHR ''x'') (CHR ''y'')) = (new_data, False)
   \<and> get_day_of_week new_data \<lparr>cin = ''Th'' @ endl, cout = []\<rparr>
       = Returned (new_data\<lparr>weekday_m := Thursday\<rparr>) \<lparr>cin = [], cout = day_prompt\<rparr>
   \<and> get_day_of_week new_data \<lparr>cin = ''xy'' @ endl, cout = []\<rparr>
       = get_day_of_week new_data
           \<lparr>cin = [], cout = day_prompt @ ''You entered an invalid weekday.'' @ endl\<rparr>"
proof -
  let ?st = "\<lparr>cin = ''Th'' @ endl, cout = []\<rparr>"
  let ?st1 = "\<lparr>cin = ''h'' @ endl, cout = day_prompt\<rparr>"
  let ?st2 = "\<lparr>cin = endl, cout = day_prompt\<rparr>"
  let ?su = "\<lparr>cin = ''xy'' @ endl, cout = []\<rparr>"
  let ?su1 = "\<lparr>cin = ''y'' @ endl, cout = day_prompt\<rparr>"
  have al: "isalpha (CHR ''T'')" "isalpha (CHR ''h'')" "isalpha (CHR ''x'')" "isalpha (CHR ''y'')"
    by code_simp+
  have dw: "documented_weekday (CHR ''T'') (CHR ''h'') = Some Thursday"
    "documented_weekday (CHR ''x'') (CHR ''y'') = None"
    by code_simp+
  have r: "read_char (print day_prompt ?st) = Some (CHR ''T'', ?st1)"
    "read_char ?st1 = Some (CHR ''h'', ?st2)"
    "read_char (print day_prompt ?su) = Some (CHR ''x'', ?su1)"
    "read_char ?su1 = Some (CHR ''y'', ?st2)"
    by code_simp+
  have ig: "ignore_line ?st2 = \<lparr>cin = [], cout = day_prompt\<rparr>" by code_simp
  have nx: "print (fst (get_day_of_week_body new_data (CHR ''x'') (CHR ''y''))) (ignore_line ?st2)
      = \<lparr>cin = [], cout = day_prompt @ ''You entered an invalid weekday.'' @ endl\<rparr>"
    by code_simp
  have a: "get_day_of_week_body new_data (CHR ''T'') (CHR ''h'')
     = ([], new_data\<lparr>weekday_m := Thursday\<rparr>, True)"
    using weekday_decoding [where d = new_data and a = "CHR ''T''" and b = "CHR ''h''"] al dw
    by simp
  have b: "snd (get_day_of_week_body new_data (CHR ''x'') (CHR ''y'')) = (new_data, False)"
    using weekday_decoding [where d = new_data and a = "CHR ''x''" and b = "CHR ''y''"] al dw
    by simp
  have c: "get_day_of_week new_data ?st
       = Returned (new_data\<lparr>weekday_m := Thursday\<rparr>) \<lparr>cin = [], cout = day_prompt\<rparr>"
    using weekday_decoding [where d = new_data and a = "CHR ''T''" and b = "CHR ''h''"
        and w = Thursday and st = ?st and ?st1.0 = ?st1 and ?st2.0 = ?st2] al dw r ig
    by simp
  have d: "get_day_of_week new_data ?su
       = get_day_of_week new_data
           \<lparr>cin = [], cout = day_prompt @ ''You entered an invalid weekday.'' @ endl\<rparr>"
    using weekday_decoding [where d = new_data and a = "CHR ''x''" and b = "CHR ''y''"
        and st = ?su and ?st1.0 = ?su1 and ?st2.0 = ?st2] al dw r nx
    by simp
  from a b c d show ?thesis by blast
qed

text \<open>
  C6, as stated, fails: for the letters \<open>tx\<close> the loop body prints nothing, and the
  output for the input line \<open>tx\<close> is the prompt twice with no message between.
\<close>

theorem t_other_no_message:
  "get_day_of_week_body new_data (CHR ''t'') (CHR ''x'') = ([], new_data, False)
   \<and> get_day_of_week new_data \<lparr>cin = ''tx'' @ endl, cout = []\<rparr>
       = Input_failed \<lparr>cin = [], cout = day_prompt @ day_prompt\<rparr>"
proof -
  have 1: "get_day_of_week_body new_data (CHR ''t'') (CHR ''x'') = ([], new_data, False)"
    by code_simp
  have r: "read_char (print day_prompt \<lparr>cin = ''tx'' @ endl, cout = []\<rparr>)
        = Some (CHR ''t'', \<lparr>cin = ''x'' @ endl, cout = day_prompt\<rparr>)"
    "read_char \<lparr>cin = ''x'' @ endl, cout = day_prompt\<rparr>
        = Some (CHR ''x'', \<lparr>cin = endl, cout = day_prompt\<rparr>)"
    by code_simp+
  have ig: "ignore_line \<lparr>cin = endl, cout = day_prompt\<rparr> = \<lparr>cin = [], cout = day_prompt\<rparr>"
    by code_simp
  have e: "get_day_of_week_pass new_data \<lparr>cin = [], cout = day_prompt\<rparr>
      = Leave (Input_failed \<lparr>cin = [], cout = day_prompt @ day_prompt\<rparr>)"
    by code_simp
  have "get_day_of_week new_data \<lparr>cin = ''tx'' @ endl, cout = []\<rparr>
      = get_day_of_week new_data \<lparr>cin = [], cout = day_prompt\<rparr>"
    using get_day_of_week_step(1) [OF r 1] ig by simp
  also have "\<dots> = Input_failed \<lparr>cin = [], cout = day_prompt @ day_prompt\<rparr>"
    by (subst get_day_of_week.simps) (simp only: e pass.case)
  finally show ?thesis using 1 by blast
qed

text \<open>
  C6, amended. Whenever the weekday input has first letter \<open>t\<close> (in either case) and
  a second character other than \<open>u\<close> or \<open>h\<close> (in either case), Read weekday makes no
  match and prompts again without printing any message for that input. The message
  "You entered an invalid weekday." is printed for two letters whose first is none of
  \<open>m\<close>, \<open>t\<close>, \<open>w\<close>, \<open>f\<close>, \<open>s\<close>.
\<close>

theorem t_other_silent:
  "(a \<in> {CHR ''t'', CHR ''T''} \<and> b \<notin> {CHR ''u'', CHR ''U'', CHR ''h'', CHR ''H''} \<longrightarrow>
      get_day_of_week_body d a b = ([], d, False))
   \<and> (a \<in> {CHR ''t'', CHR ''T''} \<and> b \<notin> {CHR ''u'', CHR ''U'', CHR ''h'', CHR ''H''}
        \<and> read_char (print day_prompt st) = Some (a, st1) \<and> read_char st1 = Some (b, st2) \<longrightarrow>
      get_day_of_week d st = get_day_of_week d (ignore_line st2)
      \<and> (\<exists>rest. cout (result_io (get_day_of_week d st))
            = cout st @ day_prompt @ day_prompt @ rest))
   \<and> (isalpha a \<and> isalpha b
        \<and> a \<notin> {CHR ''m'', CHR ''M'', CHR ''t'', CHR ''T'', CHR ''w'', CHR ''W'',
                 CHR ''f'', CHR ''F'', CHR ''s'', CHR ''S''} \<longrightarrow>
      get_day_of_week_body d a b = (''You entered an invalid weekday.'' @ endl, d, False))
   \<and> (isalpha a \<and> isalpha b
        \<and> a \<notin> {CHR ''m'', CHR ''M'', CHR ''t'', CHR ''T'', CHR ''w'', CHR ''W'',
                 CHR ''f'', CHR ''F'', CHR ''s'', CHR ''S''}
        \<and> read_char (print day_prompt st) = Some (a, st1) \<and> read_char st1 = Some (b, st2) \<longrightarrow>
      get_day_of_week d st
        = get_day_of_week d (print (''You entered an invalid weekday.'' @ endl) (ignore_line st2)))"
proof -
  have 1: "get_day_of_week_body d a b = ([], d, False)"
    if "a \<in> {CHR ''t'', CHR ''T''}" "b \<notin> {CHR ''u'', CHR ''U'', CHR ''h'', CHR ''H''}"
  proof -
    from that have "tolower a = CHR ''t''" "tolower a \<noteq> CHR ''m''"
      "tolower b \<noteq> CHR ''u''" "tolower b \<noteq> CHR ''h''"
      by (auto simp: tolower_letters)
    then show ?thesis by (simp add: get_day_of_week_body_def)
  qed
  have i1: "a \<in> {CHR ''t'', CHR ''T''} \<and> b \<notin> {CHR ''u'', CHR ''U'', CHR ''h'', CHR ''H''} \<longrightarrow>
      get_day_of_week_body d a b = ([], d, False)"
  proof (intro impI, elim conjE)
    assume "a \<in> {CHR ''t'', CHR ''T''}" "b \<notin> {CHR ''u'', CHR ''U'', CHR ''h'', CHR ''H''}"
    then show "get_day_of_week_body d a b = ([], d, False)" by (rule 1)
  qed
  have i2: "a \<in> {CHR ''t'', CHR ''T''} \<and> b \<notin> {CHR ''u'', CHR ''U'', CHR ''h'', CHR ''H''}
        \<and> read_char (print day_prompt st) = Some (a, st1) \<and> read_char st1 = Some (b, st2) \<longrightarrow>
      get_day_of_week d st = get_day_of_week d (ignore_line st2)
      \<and> (\<exists>rest. cout (result_io (get_day_of_week d st))
            = cout st @ day_prompt @ day_prompt @ rest)"
  proof (intro impI, elim conjE)
    assume ab: "a \<in> {CHR ''t'', CHR ''T''}" "b \<notin> {CHR ''u'', CHR ''U'', CHR ''h'', CHR ''H''}"
      and r: "read_char (print day_prompt st) = Some (a, st1)" "read_char st1 = Some (b, st2)"
    note step = get_day_of_week_step [OF r 1 [OF ab]]
    from step(1) have eq: "get_day_of_week d st = get_day_of_week d (ignore_line st2)" by simp
    from step(2) have co: "cout (ignore_line st2) = cout st @ day_prompt" by simp
    obtain rest where "cout (result_io (get_day_of_week d (ignore_line st2)))
        = cout (ignore_line st2) @ day_prompt @ rest"
      using get_day_of_week_output by blast
    with eq co have "cout (result_io (get_day_of_week d st))
        = cout st @ day_prompt @ day_prompt @ rest" by simp
    then have "\<exists>rest. cout (result_io (get_day_of_week d st))
        = cout st @ day_prompt @ day_prompt @ rest" ..
    with eq show "get_day_of_week d st = get_day_of_week d (ignore_line st2)
      \<and> (\<exists>rest. cout (result_io (get_day_of_week d st))
            = cout st @ day_prompt @ day_prompt @ rest)" by (rule conjI)
  qed
  have i3: "isalpha a \<and> isalpha b
        \<and> a \<notin> {CHR ''m'', CHR ''M'', CHR ''t'', CHR ''T'', CHR ''w'', CHR ''W'',
                 CHR ''f'', CHR ''F'', CHR ''s'', CHR ''S''} \<longrightarrow>
      get_day_of_week_body d a b = (''You entered an invalid weekday.'' @ endl, d, False)"
  proof (intro impI, elim conjE)
    assume al: "isalpha a" "isalpha b"
      and n: "a \<notin> {CHR ''m'', CHR ''M'', CHR ''t'', CHR ''T'', CHR ''w'', CHR ''W'',
               CHR ''f'', CHR ''F'', CHR ''s'', CHR ''S''}"
    from n have "tolower a \<noteq> CHR ''m''" "tolower a \<noteq> CHR ''t''"
      "tolower a \<noteq> CHR ''w''" "tolower a \<noteq> CHR ''f''" "tolower a \<noteq> CHR ''s''"
      by (simp_all add: tolower_letters)
    with al show "get_day_of_week_body d a b
        = (''You entered an invalid weekday.'' @ endl, d, False)"
      by (simp add: get_day_of_week_body_def)
  qed
  have i4: "isalpha a \<and> isalpha b
        \<and> a \<notin> {CHR ''m'', CHR ''M'', CHR ''t'', CHR ''T'', CHR ''w'', CHR ''W'',
                 CHR ''f'', CHR ''F'', CHR ''s'', CHR ''S''}
        \<and> read_char (print day_prompt st) = Some (a, st1) \<and> read_char st1 = Some (b, st2) \<longrightarrow>
      get_day_of_week d st
        = get_day_of_week d (print (''You entered an invalid weekday.'' @ endl) (ignore_line st2))"
  proof (intro impI, elim conjE)
    assume al: "isalpha a" "isalpha b"
      and n: "a \<notin> {CHR ''m'', CHR ''M'', CHR ''t'', CHR ''T'', CHR ''w'', CHR ''W'',
               CHR ''f'', CHR ''F'', CHR ''s'', CHR ''S''}"
      and r: "read_char (print day_prompt st) = Some (a, st1)" "read_char st1 = Some (b, st2)"
    from al n have "isalpha a \<and> isalpha b
        \<and> a \<notin> {CHR ''m'', CHR ''M'', CHR ''t'', CHR ''T'', CHR ''w'', CHR ''W'',
                 CHR ''f'', CHR ''F'', CHR ''s'', CHR ''S''}" by (intro conjI)
    with i3 have bd: "get_day_of_week_body d a b
        = (''You entered an invalid weekday.'' @ endl, d, False)" by (rule mp)
    from get_day_of_week_step(1) [OF r bd] show "get_day_of_week d st
        = get_day_of_week d (print (''You entered an invalid weekday.'' @ endl) (ignore_line st2))"
      by simp
  qed
  show ?thesis by (rule conjI [OF i1 conjI [OF i2 conjI [OF i3 i4]]])
qed

text \<open>The letters \<open>Tx\<close>, as a pair and as an input line, and the letters \<open>xy\<close>.\<close>

theorem t_other_silent_witness:
  "get_day_of_week_body new_data (CHR ''T'') (CHR ''x'') = ([], new_data, False)
   \<and> get_day_of_week new_data \<lparr>cin = ''Tx'' @ endl, cout = []\<rparr>
       = get_day_of_week new_data \<lparr>cin = [], cout = day_prompt\<rparr>
   \<and> get_day_of_week_body new_data (CHR ''x'') (CHR ''y'')
       = (''You entered an invalid weekday.'' @ endl, new_data, False)"
proof -
  let ?st = "\<lparr>cin = ''Tx'' @ endl, cout = []\<rparr>"
  let ?st1 = "\<lparr>cin = ''x'' @ endl, cout = day_prompt\<rparr>"
  let ?st2 = "\<lparr>cin = endl, cout = day_prompt\<rparr>"
  have r: "read_char (print day_prompt ?st) = Some (CHR ''T'', ?st1)"
    "read_char ?st1 = Some (CHR ''x'', ?st2)"
    by code_simp+
  have ig: "ignore_line ?st2 = \<lparr>cin = [], cout = day_prompt\<rparr>" by code_simp
  have al: "isalpha (CHR ''x'')" "isalpha (CHR ''y'')" by code_simp+
  have a: "get_day_of_week_body new_data (CHR ''T'') (CHR ''x'') = ([], new_data, False)"
    using t_other_silent [where d = new_data and a = "CHR ''T''" and b = "CHR ''x''"] by simp
  have b: "get_day_of_week new_data ?st = get_day_of_week new_data \<lparr>cin = [], cout = day_prompt\<rparr>"
    using t_other_silent [where d = new_data and a = "CHR ''T''" and b = "CHR ''x''"
        and st = ?st and ?st1.0 = ?st1 and ?st2.0 = ?st2] r ig by simp
  have c: "get_day_of_week_body new_data (CHR ''x'') (CHR ''y'')
       = (''You entered an invalid weekday.'' @ endl, new_data, False)"
    using t_other_silent [where d = new_data and a = "CHR ''x''" and b = "CHR ''y''"] al by simp
  from a b c show ?thesis by blast
qed

section \<open>The record while input is read\<close>

text \<open>
  C7, as stated, fails: the weekday of a default-constructed record is Monday, not the
  enumerator \<open>None\<close>.
\<close>

theorem new_data_not_unset:
  "weekday_m new_data = Monday \<and> weekday_m new_data \<noteq> None_day"
  by (simp add: new_data_def)

text \<open>
  C7, amended. Every freshly created record has its weekday field equal to Monday, a
  value distinct from the "unset" enumerator, and keeps it until Read weekday completes
  successfully: an input the loop rejects leaves the record as created, and the record the
  loop returns is the created one with one of the seven days as weekday.
\<close>

theorem new_data_weekday:
  "weekday_m new_data = Monday \<and> Monday \<noteq> None_day
   \<and> (\<not> snd (snd (get_day_of_week_body new_data a b)) \<longrightarrow>
        fst (snd (get_day_of_week_body new_data a b)) = new_data)
   \<and> (get_day_of_week new_data st = Returned d st' \<longrightarrow>
        weekday_m d \<in> {Monday, Tuesday, Wednesday, Thursday, Friday, Saturday, Sunday}
        \<and> d = new_data\<lparr>weekday_m := weekday_m d\<rparr>)"
proof -
  have 1: "weekday_m new_data = Monday" by (simp add: new_data_def)
  have 2: "Monday \<noteq> None_day" by simp
  have 3: "\<not> snd (snd (get_day_of_week_body new_data a b)) \<longrightarrow>
        fst (snd (get_day_of_week_body new_data a b)) = new_data"
    using get_day_of_week_body_reject [of new_data a b] by blast
  have 4: "get_day_of_week new_data st = Returned d st' \<longrightarrow>
        weekday_m d \<in> {Monday, Tuesday, Wednesday, Thursday, Friday, Saturday, Sunday}
        \<and> d = new_data\<lparr>weekday_m := weekday_m d\<rparr>"
  proof
    assume "get_day_of_week new_data st = Returned d st'"
    then obtain w where w: "w \<noteq> None_day" "d = new_data\<lparr>weekday_m := w\<rparr>"
      using get_day_of_week_returns by blast
    from w(2) have wd: "weekday_m d = w" by simp
    from w(1) have "w \<in> {Monday, Tuesday, Wednesday, Thursday, Friday, Saturday, Sunday}"
      by (cases w) simp_all
    with wd w(2) show "weekday_m d \<in> {Monday, Tuesday, Wednesday, Thursday, Friday, Saturday, Sunday}
        \<and> d = new_data\<lparr>weekday_m := weekday_m d\<rparr>" by simp
  qed
  show ?thesis by (rule conjI [OF 1 conjI [OF 2 conjI [OF 3 4]]])
qed

text \<open>A fresh record on the rejected letters \<open>xy\<close>, and on the input line \<open>Tu\<close>.\<close>

theorem new_data_weekday_witness:
  "fst (snd (get_day_of_week_body new_data (CHR ''x'') (CHR ''y''))) = new_data
   \<and> get_day_of_week new_data \<lparr>cin = ''Tu'' @ endl, cout = []\<rparr>
       = Returned (new_data\<lparr>weekday_m := Tuesday\<rparr>) \<lparr>cin = [], cout = day_prompt\<rparr>
   \<and> new_data\<lparr>weekday_m := Tuesday\<rparr>
       = new_data\<lparr>weekday_m := weekday_m (new_data\<lparr>weekday_m := Tuesday\<rparr>)\<rparr>"
proof -
  let ?st = "\<lparr>cin = ''Tu'' @ endl, cout = []\<rparr>"
  let ?st' = "\<lparr>cin = [], cout = day_prompt\<rparr>"
  have rej: "\<not> snd (snd (get_day_of_week_body new_data (CHR ''x'') (CHR ''y'')))" by code_simp
  have run: "get_day_of_week new_data ?st = Returned (new_data\<lparr>weekday_m := Tuesday\<rparr>) ?st'"
    by code_simp
  have a: "fst (snd (get_day_of_week_body new_data (CHR ''x'') (CHR ''y''))) = new_data"
    using new_data_weekday [where a = "CHR ''x''" and b = "CHR ''y''"] rej by blast
  have b: "new_data\<lparr>weekday_m := Tuesday\<rparr>
       = new_data\<lparr>weekday_m := weekday_m (new_data\<lparr>weekday_m := Tuesday\<rparr>)\<rparr>"
    using new_data_weekday [where st = ?st and d = "new_data\<lparr>weekday_m := Tuesday\<rparr>"
        and st' = ?st'] run by blast
  from a run b show ?thesis by blast
qed

text \<open>
  C8. Each reading operation is atomic on error: a rejected weekday pair, an hour or
  minutes out of range, and a call length that does not begin with a digit each leave the
  record exactly as it was (a valid hour with invalid minutes stores neither); and what a
  reading function returns is the record it was given with its own fields set from one
  accepted input.
\<close>

theorem rejected_input_stores_nothing:
  "(\<not> snd (snd (get_day_of_week_body d a b)) \<longrightarrow> fst (snd (get_day_of_week_body d a b)) = d)
   \<and> (h < 0 \<or> 24 < h \<or> m < 0 \<or> 59 < m \<or> (h = 24 \<and> 0 < m) \<longrightarrow>
        snd (get_start_time_body d h m) = (d, False))
   \<and> (\<not> isdigit (first_char s) \<longrightarrow>
        get_length_of_call_body d s
          = Inr (''You did not enter a valid number.'' @ endl, d, False))
   \<and> (get_length_of_call_body d s = Inr (msg, d', False) \<longrightarrow> d' = d)
   \<and> (get_day_of_week d st = Returned d' st' \<longrightarrow> (\<exists>w. d' = d\<lparr>weekday_m := w\<rparr>))
   \<and> (get_start_time d st = Returned d' st' \<longrightarrow>
        (\<exists>h m. snd (snd (get_start_time_body d h m)) \<and> d' = d\<lparr>hour_m := h, minutes_m := m\<rparr>))
   \<and> (get_length_of_call d st = Returned d' st' \<longrightarrow> (\<exists>n. d' = d\<lparr>length_of_call_m := n\<rparr>))"
proof -
  have 1: "\<not> snd (snd (get_day_of_week_body d a b)) \<longrightarrow>
      fst (snd (get_day_of_week_body d a b)) = d"
    using get_day_of_week_body_reject [of d a b] by blast
  have 2: "h < 0 \<or> 24 < h \<or> m < 0 \<or> 59 < m \<or> (h = 24 \<and> 0 < m) \<longrightarrow>
        snd (get_start_time_body d h m) = (d, False)"
    by (auto simp: get_start_time_body_def)
  have 3: "\<not> isdigit (first_char s) \<longrightarrow>
        get_length_of_call_body d s
          = Inr (''You did not enter a valid number.'' @ endl, d, False)"
    by (simp add: get_length_of_call_body_def)
  have 4: "get_length_of_call_body d s = Inr (msg, d', False) \<longrightarrow> d' = d"
    using get_length_of_call_body_cases [of d s msg d' False] by blast
  have 5: "get_day_of_week d st = Returned d' st' \<longrightarrow> (\<exists>w. d' = d\<lparr>weekday_m := w\<rparr>)"
    using get_day_of_week_returns [of d st d' st'] by blast
  have 6: "get_start_time d st = Returned d' st' \<longrightarrow>
        (\<exists>h m. snd (snd (get_start_time_body d h m)) \<and> d' = d\<lparr>hour_m := h, minutes_m := m\<rparr>)"
    using get_start_time_returns [of d st d' st'] by blast
  have 7: "get_length_of_call d st = Returned d' st' \<longrightarrow> (\<exists>n. d' = d\<lparr>length_of_call_m := n\<rparr>)"
    using get_length_of_call_returns [of d st d' st'] by blast
  show ?thesis
    by (rule conjI [OF 1 conjI [OF 2 conjI [OF 3 conjI [OF 4 conjI [OF 5 conjI [OF 6 7]]]]]])
qed


text \<open>
  The rejected inputs \<open>xy\<close>, 9:70 and \<open>abc\<close>, and the input lines \<open>Tu\<close>,
  \<open>9:70\<close> followed by \<open>9:30\<close>, and \<open>abc\<close> followed by \<open>12\<close>.
\<close>

theorem rejected_input_stores_nothing_witness:
  "fst (snd (get_day_of_week_body new_data (CHR ''x'') (CHR ''y''))) = new_data
   \<and> snd (get_start_time_body new_data 9 70) = (new_data, False)
   \<and> get_length_of_call_body new_data ''abc''
       = Inr (''You did not enter a valid number.'' @ endl, new_data, False)
   \<and> (\<exists>w. new_data\<lparr>weekday_m := Tuesday\<rparr> = new_data\<lparr>weekday_m := w\<rparr>)
   \<and> get_start_time new_data \<lparr>cin = ''9:70'' @ endl @ ''9:30'' @ endl, cout = []\<rparr>
       = Returned (new_data\<lparr>hour_m := 9, minutes_m := 30\<rparr>)
           \<lparr>cin = [],
            cout = time_prompt @ ''You entered an invalid minutes.'' @ endl @ time_prompt\<rparr>
   \<and> (\<exists>h m. snd (snd (get_start_time_body new_data h m))
         \<and> new_data\<lparr>hour_m := 9, minutes_m := 30\<rparr> = new_data\<lparr>hour_m := h, minutes_m := m\<rparr>)
   \<and> get_length_of_call new_data \<lparr>cin = ''abc'' @ endl @ ''12'' @ endl, cout = []\<rparr>
       = Returned (new_data\<lparr>length_of_call_m := 12\<rparr>)
           \<lparr>cin = [],
            cout = length_prompt @ ''You did not enter a valid number.'' @ endl @ length_prompt\<rparr>
   \<and> (\<exists>n. new_data\<lparr>length_of_call_m := 12\<rparr> = new_data\<lparr>length_of_call_m := n\<rparr>)"
proof -
  let ?day = "\<lparr>cin = ''Tu'' @ endl, cout = []\<rparr>"
  let ?day' = "\<lparr>cin = [], cout = day_prompt\<rparr>"
  let ?time = "\<lparr>cin = ''9:70'' @ endl @ ''9:30'' @ endl, cout = []\<rparr>"
  let ?time' = "\<lparr>cin = [],
      cout = time_prompt @ ''You entered an invalid minutes.'' @ endl @ time_prompt\<rparr>"
  let ?len = "\<lparr>cin = ''abc'' @ endl @ ''12'' @ endl, cout = []\<rparr>"
  let ?len' = "\<lparr>cin = [],
      cout = length_prompt @ ''You did not enter a valid number.'' @ endl @ length_prompt\<rparr>"
  let ?msg = "''You did not enter a valid number.'' @ endl"
  have rej: "\<not> snd (snd (get_day_of_week_body new_data (CHR ''x'') (CHR ''y'')))" by code_simp
  have nd: "\<not> isdigit (first_char ''abc'')" by code_simp
  have run1: "get_day_of_week new_data ?day = Returned (new_data\<lparr>weekday_m := Tuesday\<rparr>) ?day'"
    by code_simp
  have run2: "get_start_time new_data ?time
      = Returned (new_data\<lparr>hour_m := 9, minutes_m := 30\<rparr>) ?time'"
    by code_simp
  have run3: "get_length_of_call new_data ?len
      = Returned (new_data\<lparr>length_of_call_m := 12\<rparr>) ?len'"
    by code_simp
  have a: "fst (snd (get_day_of_week_body new_data (CHR ''x'') (CHR ''y''))) = new_data"
    using rejected_input_stores_nothing [where d = new_data and a = "CHR ''x''" and b = "CHR ''y''"]
      rej by blast
  have b: "snd (get_start_time_body new_data 9 70) = (new_data, False)"
    using rejected_input_stores_nothing [where d = new_data and h = 9 and m = 70] by simp
  have c: "get_length_of_call_body new_data ''abc'' = Inr (?msg, new_data, False)"
    using rejected_input_stores_nothing [where d = new_data and s = "''abc''"] nd by blast
  have d: "\<exists>w. new_data\<lparr>weekday_m := Tuesday\<rparr> = new_data\<lparr>weekday_m := w\<rparr>"
    using rejected_input_stores_nothing [where d = new_data and st = ?day
        and d' = "new_data\<lparr>weekday_m := Tuesday\<rparr>" and st' = ?day'] run1 by blast
  have e: "\<exists>h m. snd (snd (get_start_time_body new_data h m))
         \<and> new_data\<lparr>hour_m := 9, minutes_m := 30\<rparr> = new_data\<lparr>hour_m := h, minutes_m := m\<rparr>"
    using rejected_input_stores_nothing [where d = new_data and st = ?time
        and d' = "new_data\<lparr>hour_m := 9, minutes_m := 30\<rparr>" and st' = ?time'] run2 by blast
  have f: "\<exists>n. new_data\<lparr>length_of_call_m := 12\<rparr> = new_data\<lparr>length_of_call_m := n\<rparr>"
    using rejected_input_stores_nothing [where d = new_data and st = ?len
        and d' = "new_data\<lparr>length_of_call_m := 12\<rparr>" and st' = ?len'] run3 by blast
  show ?thesis
    by (rule conjI [OF a conjI [OF b conjI [OF c conjI [OF d conjI [OF run2 conjI [OF e
          conjI [OF run3 f]]]]]]])
qed

section \<open>The session loop and the echoed time\<close>

text \<open>\<open>main\<close> returns no status but 0.\<close>

lemma main_exit_status: "main st = Exited n s \<Longrightarrow> n = 0"
proof (induction st rule: main.induct)
  case (1 st)
  note prem = "1.prems" [unfolded main.simps [of st]]
  from prem "1.IH" show ?case
    by (auto split: result.splits option.splits prod.splits if_splits)
qed

text \<open>
  C9. The property: for every input stream the process ends only by returning 0 from
  \<open>main\<close>, and only after the answer \<open>n\<close> or \<open>N\<close> to the continue prompt; every other
  answer keeps the session running, and no exception ends the process. The code breaks
  it. On the input lines \<open>Mo\<close>, \<open>09:30\<close>, \<open>99999999999\<close> the process ends although
  no answer to the continue prompt was given, and not by returning from \<open>main\<close>:
  \<open>std::stoi\<close> throws \<open>std::out_of_range\<close> in \<open>get_length_of_call\<close>, nothing catches
  it, and \<open>std::terminate\<close> ends the process after the prompt for the length of the call.
\<close>

theorem main_uncaught_out_of_range:
  "main \<lparr>cin = ''Mo'' @ endl @ ''09:30'' @ endl @ ''99999999999'' @ endl, cout = []\<rparr>
     = Terminated Out_of_range
         \<lparr>cin = [],
          cout = hello @ day_prompt @ weekday_echo ''Monday'' @ time_prompt
            @ time_echo \<lparr>weekday_m = Monday, hour_m = 9, minutes_m = 30, length_of_call_m = 0\<rparr>
            @ length_prompt\<rparr>"
  by code_simp

text \<open>
  The session of the specification's last scenario: two calculations, the answer \<open>y\<close>
  between them, the answer \<open>n\<close> after the second, and \<open>main\<close> returns 0.
\<close>

lemma main_two_calls:
  "main \<lparr>cin = ''Mo'' @ endl @ ''09:30'' @ endl @ ''10'' @ endl @ ''y'' @ endl
             @ ''Sa'' @ endl @ ''23:00'' @ endl @ ''60'' @ endl @ ''n'' @ endl, cout = []\<rparr>
     = Exited 0
         \<lparr>cin = [],
          cout = hello @ day_prompt @ weekday_echo ''Monday'' @ time_prompt
            @ ''You entered the time: 9:30'' @ endl @ endl @ length_prompt
            @ ''You entered: 10 minutes.'' @ endl @ endl
            @ ''The cost of your call is $4.00'' @ endl @ endl @ endl @ quit_prompt
            @ hello @ day_prompt @ weekday_echo ''Saturday'' @ time_prompt
            @ ''You entered the time: 23:00'' @ endl @ endl @ length_prompt
            @ ''You entered: 60 minutes.'' @ endl @ endl
            @ ''The cost of your call is $9.00'' @ endl @ endl @ endl @ quit_prompt
            @ endl\<rparr>"
  by code_simp

text \<open>Any answer but \<open>n\<close>, \<open>N\<close>, \<open>y\<close>, \<open>Y\<close> is taken as a yes, with the message.\<close>

lemma main_other_answer:
  "main \<lparr>cin = ''Su'' @ endl @ ''12:00'' @ endl @ ''1'' @ endl @ ''x'' @ endl
             @ ''Fr'' @ endl @ ''18:45'' @ endl @ ''20'' @ endl @ ''N'' @ endl, cout = []\<rparr>
     = Exited 0
         \<lparr>cin = [],
          cout = hello @ day_prompt @ weekday_echo ''Sunday'' @ time_prompt
            @ ''You entered the time: 12:00'' @ endl @ endl @ length_prompt
            @ ''You entered: 1 minutes.'' @ endl @ endl
            @ ''The cost of your call is $0.15'' @ endl @ endl @ endl @ quit_prompt
            @ yes_message
            @ hello @ day_prompt @ weekday_echo ''Friday'' @ time_prompt
            @ ''You entered the time: 18:45'' @ endl @ endl @ length_prompt
            @ ''You entered: 20 minutes.'' @ endl @ endl
            @ ''The cost of your call is $8.00'' @ endl @ endl @ endl @ quit_prompt
            @ endl\<rparr>"
  by code_simp

text \<open>
  C10. For every accepted start time the echoed time is the decimal hour, a colon and
  \<open>00\<close> when the minutes are 0, and the decimal hour, a colon and the decimal minutes
  otherwise; a number below 10 is a single digit, with no zero before it, so that an
  accepted 9:05 is echoed as \<open>9:5\<close>.
\<close>

theorem time_echo_format:
  "(get_start_time_body d h m = (msg, d', True) \<longrightarrow>
      get_time_formatted d'
        = (if m = 0 then to_string h @ '':'' @ ''00'' else to_string h @ '':'' @ to_string m)
      \<and> time_echo d' = ''You entered the time: '' @ get_time_formatted d' @ endl @ endl)
   \<and> (0 \<le> h \<and> h < 10 \<longrightarrow> to_string h = [digit_char (nat h)])
   \<and> get_time_formatted (new_data\<lparr>hour_m := 9, minutes_m := 5\<rparr>) = ''9:5''"
proof -
  have z: "to_string 0 = ''0''" by code_simp
  have 1: "get_start_time_body d h m = (msg, d', True) \<longrightarrow>
      get_time_formatted d'
        = (if m = 0 then to_string h @ '':'' @ ''00'' else to_string h @ '':'' @ to_string m)
      \<and> time_echo d' = ''You entered the time: '' @ get_time_formatted d' @ endl @ endl"
  proof
    assume a: "get_start_time_body d h m = (msg, d', True)"
    then have "snd (snd (get_start_time_body d h m))" by simp
    from get_start_time_body_accept [OF this] a
    have d': "d' = d\<lparr>hour_m := h, minutes_m := m\<rparr>" by simp
    then have "get_time_formatted d'
        = (if m = 0 then to_string h @ '':'' @ ''00'' else to_string h @ '':'' @ to_string m)"
      by (simp add: get_time_formatted_def z)
    then show "get_time_formatted d'
        = (if m = 0 then to_string h @ '':'' @ ''00'' else to_string h @ '':'' @ to_string m)
      \<and> time_echo d' = ''You entered the time: '' @ get_time_formatted d' @ endl @ endl"
      by (simp add: time_echo_def)
  qed
  have 2: "0 \<le> h \<and> h < 10 \<longrightarrow> to_string h = [digit_char (nat h)]"
    by (simp add: to_string_def digits_of.simps)
  have 3: "get_time_formatted (new_data\<lparr>hour_m := 9, minutes_m := 5\<rparr>) = ''9:5''"
    by code_simp
  show ?thesis by (rule conjI [OF 1 conjI [OF 2 3]])
qed

text \<open>The accepted times 9:05 and 18:00.\<close>

theorem time_echo_format_witness:
  "get_time_formatted (new_data\<lparr>hour_m := 9, minutes_m := 5\<rparr>) = ''9:5''
   \<and> get_time_formatted (new_data\<lparr>hour_m := 18, minutes_m := 0\<rparr>) = ''18:00''
   \<and> to_string 9 = ''9''"
proof -
  have b1: "get_start_time_body new_data 9 5 = ([], new_data\<lparr>hour_m := 9, minutes_m := 5\<rparr>, True)"
    by code_simp
  have b2: "get_start_time_body new_data 18 0
      = ([], new_data\<lparr>hour_m := 18, minutes_m := 0\<rparr>, True)"
    by code_simp
  have s: "to_string 9 @ '':'' @ to_string 5 = ''9:5''" "to_string 18 @ '':'' @ ''00'' = ''18:00''"
    "[digit_char (nat 9)] = ''9''"
    by code_simp+
  have a: "get_time_formatted (new_data\<lparr>hour_m := 9, minutes_m := 5\<rparr>) = ''9:5''"
    using time_echo_format [where d = new_data and h = 9 and m = 5 and msg = "[]"
        and d' = "new_data\<lparr>hour_m := 9, minutes_m := 5\<rparr>"] b1 s(1) by simp
  have b: "get_time_formatted (new_data\<lparr>hour_m := 18, minutes_m := 0\<rparr>) = ''18:00''"
    using time_echo_format [where d = new_data and h = 18 and m = 0 and msg = "[]"
        and d' = "new_data\<lparr>hour_m := 18, minutes_m := 0\<rparr>"] b2 s(2) by simp
  have c: "to_string 9 = ''9''"
    using time_echo_format [where h = 9] s(3) by simp
  show ?thesis by (rule conjI [OF a conjI [OF b c]])
qed

end
